theory Spec2Isabelle
  imports Complex_Main "HOL-Library.Word"
begin

section \<open>A shallow embedding of the retrieval-and-generation engine (rag.js)\<close>

text \<open>
  The engine of the Discord bot lives in \<^verbatim>\<open>rag.js\<close>: ingestion (\<^verbatim>\<open>cleanText\<close>,
  \<^verbatim>\<open>chunkText\<close>, \<^verbatim>\<open>initRAG\<close>), the embedder with its hash-derived fallback
  (\<^verbatim>\<open>getEmbedding\<close>, \<^verbatim>\<open>fallbackEmbeddingSync\<close>), the answer generator
  (\<^verbatim>\<open>generateResponse\<close>) and the query pipeline (\<^verbatim>\<open>queryRAG\<close>).

  Conventions of the embedding.
  \<^item> A JavaScript string is a \<^typ>\<open>string\<close>; one \<^typ>\<open>char\<close> stands for one UTF-16 code
    unit below 256 (ASCII and Latin-1) and \<^const>\<open>length\<close> is \<^verbatim>\<open>.length\<close>. White space
    and letter case are those of JavaScript on these code units; code units from 256 on
    have no \<^typ>\<open>char\<close>.
  \<^item> A JavaScript number that holds a count or a position is a \<^typ>\<open>nat\<close>; a number that
    holds a distance, a score or a vector component is a \<^typ>\<open>real\<close> (the IEEE rounding of
    the source is not modelled).
  \<^item> A thrown \<^verbatim>\<open>Error\<close> is a value \<open>Error msg\<close> on the left of a sum; a function that may
    throw returns \<open>js_error + 'a\<close>.
  \<^item> Everything outside the file that a query or the ingestion depends on (the two HTTP
    providers, the SHA-256 digest, the search of the native vector index, the timer of
    the race) is a field of an environment record, and the data directory is an
    argument; the theorems hold for every environment and every directory. Calls to
    \<^verbatim>\<open>console\<close> are omitted.
\<close>

subsection \<open>Strings\<close>

text \<open>White space as \<^verbatim>\<open>trim\<close> and \<^verbatim>\<open>\s\<close> know it, below code unit 256: the space, tab, line
  feed, vertical tab, form feed, carriage return and the no-break space U+00A0.\<close>

definition isSpace :: "char \<Rightarrow> bool" where
  "isSpace c =
     (c \<in> set [CHR '' '', CHR 0x09, CHR 0x0A, CHR 0x0B, CHR 0x0C, CHR 0x0D, CHR 0xA0])"

text \<open>\<^verbatim>\<open>s.trim()\<close>.\<close>

definition trim :: "string \<Rightarrow> string" where
  "trim s = rev (dropWhile isSpace (rev (dropWhile isSpace s)))"

text \<open>\<^verbatim>\<open>s.substring(a, b)\<close>: the arguments are clamped to the length and swapped when
  \<open>a > b\<close>; \<^verbatim>\<open>s.substring(a)\<close> and \<^verbatim>\<open>s.slice(0, n)\<close> are \<^const>\<open>drop\<close> and \<^const>\<open>take\<close>.\<close>

definition substring :: "string \<Rightarrow> nat \<Rightarrow> nat \<Rightarrow> string" where
  "substring s a b = take (max a b - min a b) (drop (min a b) s)"

text \<open>\<^verbatim>\<open>s.startsWith(p)\<close>, \<^verbatim>\<open>s.endsWith(p)\<close>, \<^verbatim>\<open>s.includes(p)\<close>.\<close>

definition startsWith :: "string \<Rightarrow> string \<Rightarrow> bool" where
  "startsWith s p = (take (length p) s = p)"

definition endsWith :: "string \<Rightarrow> string \<Rightarrow> bool" where
  "endsWith s p = startsWith (rev s) (rev p)"

fun includes_str :: "string \<Rightarrow> string \<Rightarrow> bool" where
  "includes_str [] p = (p = [])"
| "includes_str (c # cs) p = (startsWith (c # cs) p \<or> includes_str cs p)"

text \<open>\<^verbatim>\<open>s.indexOf(c, from)\<close> for a one-character needle; \<open>None\<close> is the source's \<open>-1\<close>.\<close>

fun indexFrom :: "string \<Rightarrow> char \<Rightarrow> nat \<Rightarrow> nat option" where
  "indexFrom [] c i = None"
| "indexFrom (x # xs) c i = (if x = c then Some i else indexFrom xs c (Suc i))"

definition indexOf :: "string \<Rightarrow> char \<Rightarrow> nat \<Rightarrow> nat option" where
  "indexOf s c from = indexFrom (drop from s) c from"

text \<open>\<^verbatim>\<open>s.toLowerCase()\<close>: the capital letters A to Z, and those of Latin-1 (U+00C0 to
  U+00DE without the multiplication sign U+00D7), move up by 32.\<close>

definition lowerChar :: "char \<Rightarrow> char" where
  "lowerChar c =
     (let n = (of_char c :: nat)
      in if (65 \<le> n \<and> n \<le> 90) \<or> (192 \<le> n \<and> n \<le> 222 \<and> n \<noteq> 215)
         then char_of (n + 32) else c)"

definition toLowerCase :: "string \<Rightarrow> string" where
  "toLowerCase s = map lowerChar s"

text \<open>\<^verbatim>\<open>xs.join(sep)\<close>.\<close>

fun join :: "string \<Rightarrow> string list \<Rightarrow> string" where
  "join sep [] = []"
| "join sep [x] = x"
| "join sep (x # y # ys) = x @ sep @ join sep (y # ys)"

text \<open>\<^verbatim>\<open>s.split('\n')\<close>: the pieces between newlines; the empty string gives one empty
  piece.\<close>

fun splitLines :: "string \<Rightarrow> string list" where
  "splitLines [] = [[]]"
| "splitLines (c # cs) =
     (if c = CHR 0x0A then [] # splitLines cs
      else (case splitLines cs of [] \<Rightarrow> [[c]] | l # ls \<Rightarrow> (c # l) # ls))"

text \<open>\<^verbatim>\<open>s.split(/\s+/).length\<close>: one more than the number of maximal runs of white space.
  The flag says whether the previous character was white space.\<close>

fun spaceRuns :: "bool \<Rightarrow> string \<Rightarrow> nat" where
  "spaceRuns inRun [] = 0"
| "spaceRuns inRun (c # cs) =
     (if isSpace c then (if inRun then 0 else 1) + spaceRuns True cs
      else spaceRuns False cs)"

definition countWords :: "string \<Rightarrow> nat" where
  "countWords s = Suc (spaceRuns False s)"

text \<open>The decimal digits of a number, as string concatenation \<^verbatim>\<open>"" + n\<close> writes them.\<close>

fun showNat :: "nat \<Rightarrow> string" where
  "showNat n =
     (if n < 10 then [char_of (48 + n)]
      else showNat (n div 10) @ [char_of (48 + n mod 10)])"

declare showNat.simps [simp del]

subsection \<open>Errors\<close>

datatype js_error = Error string

definition message :: "js_error \<Rightarrow> string" where
  "message e = (case e of Error m \<Rightarrow> m)"

subsection \<open>The embedder\<close>

type_synonym vec = "real list"

text \<open>What the embedding endpoint does with one request: the request fails (a transport
  error, a status that is not 2xx, a body that is not JSON), or it returns a JSON object
  whose \<^verbatim>\<open>embedding\<close> field is absent (\<open>None\<close>) or an array.\<close>

datatype embed_reply = EmbedFailed | EmbedJson "vec option"

text \<open>What the generation endpoint does with one request.\<close>

datatype gen_reply =
    FetchRejected string
  | HttpNotOk nat string
  | BodyNotJson
  | GenJson "string option"

record gen_request =
  prompt :: string
  num_predict :: nat
  stop :: "string list option"


subsection \<open>The native vector index\<close>

text \<open>\<^verbatim>\<open>faiss.IndexFlatL2(dim)\<close> is a native library. The model keeps what the source
  hands to it: the dimension given to the constructor and the flat array given to
  \<^verbatim>\<open>index.add(flat)\<close>, which the library reads as consecutive vectors of \<open>dim\<close>
  components each (the layout that the source's own test \<^verbatim>\<open>flat.length % dim !== 0\<close>
  presupposes).\<close>

record faiss_index =
  dim :: nat
  flat :: "real list"

definition ntotal :: "faiss_index \<Rightarrow> nat" where
  "ntotal ix = length (flat ix) div dim ix"

definition slot :: "faiss_index \<Rightarrow> nat \<Rightarrow> vec" where
  "slot ix i = take (dim ix) (drop (i * dim ix) (flat ix))"

text \<open>What \<^verbatim>\<open>index.search(v, k)\<close> hands back, as far as the source looks at it: an object
  without \<^verbatim>\<open>labels\<close>, or parallel arrays \<^verbatim>\<open>labels\<close> and \<^verbatim>\<open>distances\<close> that are either
  flat (one number per hit) or nested (one array per query vector). A hit is a pair of
  a label and its distance.\<close>

datatype search_result =
    NoLabels
  | FlatResult "(int \<times> real) list"
  | NestedResult "(int \<times> real) list list"

subsection \<open>The environment\<close>

text \<open>
  \<^item> \<open>sha256 s b\<close> is byte \<open>b\<close> (\<open>0 \<le> b < 32\<close>) of the SHA-256 digest of \<open>s\<close>.
  \<^item> \<open>embedProvider n t\<close> and \<open>genProvider n r\<close> answer the \<open>n\<close>-th request that an
    operation sends to the embedding and to the generation endpoint.
  \<^item> \<open>indexSearch\<close> is \<^verbatim>\<open>index.search\<close>; it may throw.
  \<^item> \<open>raceTimerWins\<close> says that the 30 second timer of the \<^verbatim>\<open>Promise.race\<close> in
    \<^verbatim>\<open>queryRAG\<close> rejects before the call of \<^verbatim>\<open>generateResponse\<close> it races against
    has settled.
  \<^item> \<open>cleanText\<close> is the normaliser, a chain of regular-expression replacements; no
    property below depends on what it computes, so it is left open.
\<close>

record env =
  sha256 :: "string \<Rightarrow> nat \<Rightarrow> 8 word"
  embedProvider :: "nat \<Rightarrow> string \<Rightarrow> embed_reply"
  genProvider :: "nat \<Rightarrow> gen_request \<Rightarrow> gen_reply"
  indexSearch :: "faiss_index \<Rightarrow> vec \<Rightarrow> nat \<Rightarrow> js_error + search_result"
  raceTimerWins :: bool
  cleanText :: "string \<Rightarrow> string"

subsection \<open>fallbackEmbeddingSync\<close>

text \<open>\<^verbatim>\<open>(h[b] / 255.0) * 2 - 1\<close>.\<close>

definition scaleByte :: "8 word \<Rightarrow> real" where
  "scaleByte b = (real (unat b) / 255) * 2 - 1"

text \<open>The inner \<^verbatim>\<open>for (let b = 0; b < h.length && i < dim; b++) floats[i++] = ...\<close>; a
  SHA-256 digest has 32 bytes. The loop returns the array and \<open>i\<close>.\<close>

function fillFromDigest ::
  "(nat \<Rightarrow> 8 word) \<Rightarrow> nat \<Rightarrow> nat \<Rightarrow> real list \<Rightarrow> nat \<Rightarrow> real list \<times> nat" where
  "fillFromDigest h d b floats i =
     (if b < 32 \<and> i < d
      then fillFromDigest h d (b + 1) (floats[i := scaleByte (h b)]) (i + 1)
      else (floats, i))"
  by pat_completeness auto
termination
  by (relation "measure (\<lambda>(h, d, b, floats, i). 32 - b)") auto

declare fillFromDigest.simps [simp del]

text \<open>The outer \<^verbatim>\<open>while (i < dim)\<close> with its \<open>counter\<close>.\<close>

function fillFloats ::
  "(string \<Rightarrow> nat \<Rightarrow> 8 word) \<Rightarrow> string \<Rightarrow> nat \<Rightarrow> real list \<Rightarrow> nat \<Rightarrow> nat \<Rightarrow> real list" where
  "fillFloats sha t d floats i counter =
     (if i < d
      then (case fillFromDigest (sha (t @ ''|'' @ showNat counter)) d 0 floats i of
              (floats', i') \<Rightarrow> fillFloats sha t d floats' i' (counter + 1))
      else floats)"
  by pat_completeness auto
termination
proof (relation "measure (\<lambda>(sha, t, d, floats, i, counter). d - i)")
  show "wf (measure (\<lambda>(sha, t, d, floats, i, counter). d - i))"
    by simp
next
  fix sha :: "string \<Rightarrow> nat \<Rightarrow> 8 word" and t :: string and d :: nat
    and floats :: "real list" and i counter :: nat and x2 :: "real list \<times> nat"
    and floats' :: "real list" and i' :: nat
  assume lt: "i < d"
    and run: "(floats', i') = fillFromDigest (sha (t @ ''|'' @ showNat counter)) d 0 floats i"
  have grow: "j \<le> snd (fillFromDigest h m b fl j)" for h m b fl j
    by (induction h m b fl j rule: fillFromDigest.induct)
       (subst fillFromDigest.simps, auto)
  have "fillFromDigest (sha (t @ ''|'' @ showNat counter)) d 0 floats i
        = fillFromDigest (sha (t @ ''|'' @ showNat counter)) d 1
            (floats[i := scaleByte (sha (t @ ''|'' @ showNat counter) 0)]) (i + 1)"
    using lt by (subst fillFromDigest.simps) simp
  then have "i + 1 \<le> i'"
    using run grow [of "i + 1" "sha (t @ ''|'' @ showNat counter)" d 1
        "floats[i := scaleByte (sha (t @ ''|'' @ showNat counter) 0)]"]
    by (metis snd_conv)
  then show "((sha, t, d, floats', i', counter + 1), (sha, t, d, floats, i, counter))
      \<in> measure (\<lambda>(sha, t, d, floats, i, counter). d - i)"
    using lt by simp
qed

declare fillFloats.simps [simp del]

text \<open>\<^verbatim>\<open>new Array(dim).fill(0)\<close>, then the loops.\<close>

definition fallbackEmbeddingSync :: "(string \<Rightarrow> nat \<Rightarrow> 8 word) \<Rightarrow> string \<Rightarrow> nat \<Rightarrow> vec" where
  "fallbackEmbeddingSync sha t d = fillFloats sha t d (replicate d 0) 0 0"

subsection \<open>getEmbedding\<close>

text \<open>\<^verbatim>\<open>return data.embedding || fallbackEmbeddingSync(text, 768)\<close>; every failure of the
  request is caught and answered by the fallback as well. An empty array is truthy in
  JavaScript and is returned as it is.\<close>

definition getEmbedding :: "env \<Rightarrow> nat \<Rightarrow> string \<Rightarrow> vec" where
  "getEmbedding e n t =
     (case embedProvider e n t of
        EmbedJson (Some v) \<Rightarrow> v
      | EmbedJson None \<Rightarrow> fallbackEmbeddingSync (sha256 e) t 768
      | EmbedFailed \<Rightarrow> fallbackEmbeddingSync (sha256 e) t 768)"

subsection \<open>generateResponse\<close>

definition apology :: string where
  \<open>apology = ''I'm having trouble generating a response right now. Please try again later.''\<close>

text \<open>The two prompt templates; \<^verbatim>\<open>if (context)\<close> is true for a non-empty string.\<close>

definition buildPrompt :: "string \<Rightarrow> string \<Rightarrow> string" where
  "buildPrompt context question =
     (if context \<noteq> []
      then ''[INST] <|system|>You are a helpful assistant. Answer based on the provided context.</s>\<newline><|user|>Context: ''
           @ substring context 0 1000
           @ ''...\<newline>\<newline>Question: '' @ question
           @ ''\<newline>\<newline>Answer helpfully: [/INST]''
      else ''[INST] <|system|>You are a helpful AI assistant. Answer the following question helpfully and concisely.</s>\<newline><|user|>''
           @ question @ ''[/INST]'')"

text \<open>The request body, without its constant fields (model, stream, num_ctx,
  temperature, top_p).\<close>

definition genRequest :: "string \<Rightarrow> string \<Rightarrow> gen_request" where
  "genRequest context question =
     \<lparr> prompt = buildPrompt context question,
       num_predict = (if context \<noteq> [] then 100 else 200),
       stop = (if context \<noteq> [] then Some [[CHR 0x0A]] else None) \<rparr>"

text \<open>Everything after the request is inside one \<^verbatim>\<open>try\<close> whose \<^verbatim>\<open>catch\<close> returns the
  apology: a rejected fetch (also the abort after 30 seconds), a status that is not ok,
  a body that is not JSON, a missing or empty \<^verbatim>\<open>response\<close> field.\<close>

definition generateResponse :: "env \<Rightarrow> nat \<Rightarrow> string \<Rightarrow> string \<Rightarrow> string" where
  "generateResponse e n context question =
     (case genProvider e n (genRequest context question) of
        GenJson (Some r) \<Rightarrow> (if r = [] then apology else trim r)
      | GenJson None \<Rightarrow> apology
      | FetchRejected m \<Rightarrow> apology
      | HttpNotOk c m \<Rightarrow> apology
      | BodyNotJson \<Rightarrow> apology)"


subsection \<open>chunkText\<close>

text \<open>\<^verbatim>\<open>chunkText(text, chunkSize = 1000, overlap = 200)\<close> has one caller,
  \<^verbatim>\<open>chunkText(cleanedContent)\<close>, so the two defaults are constants here.\<close>

definition chunkSize :: nat where
  "chunkSize = 1000"

definition overlap :: nat where
  "overlap = 200"

text \<open>The end of the window that starts at \<open>start\<close>: \<open>start + chunkSize\<close>, moved behind
  the next period, or else the next newline, when that lies less than 100 characters
  further on and the window does not already reach the end of the text.\<close>

definition windowEnd :: "string \<Rightarrow> nat \<Rightarrow> nat" where
  "windowEnd t start =
     (let fin = start + chunkSize in
      if fin < length t
      then (let byNewline =
                  (case indexOf t (CHR 0x0A) fin of
                     Some p \<Rightarrow> (if p - fin < 100 then p + 1 else fin)
                   | None \<Rightarrow> fin)
            in case indexOf t (CHR ''.'') fin of
                 Some p \<Rightarrow> (if p - fin < 100 then p + 1 else byNewline)
               | None \<Rightarrow> byNewline)
      else fin)"

text \<open>The \<^verbatim>\<open>while (start < text.length)\<close> loop with its \<^verbatim>\<open>break\<close>; \<open>chunks\<close> is the
  array pushed to.\<close>

function chunkLoop :: "string \<Rightarrow> nat \<Rightarrow> string list \<Rightarrow> string list" where
  "chunkLoop t start chunks =
     (if start < length t
      then (let fin = windowEnd t start;
                chunks' = chunks @ [trim (substring t start fin)];
                start' = fin - overlap
            in if start' \<ge> length t then chunks' else chunkLoop t start' chunks')
      else chunks)"
  by pat_completeness auto
termination
proof (relation "measure (\<lambda>(t, start, chunks). length t - start)", goal_cases)
  case 1
  show ?case by simp
next
  case (2 t start chunks fin grown start')
  have mono: "i \<le> p" if "indexFrom xs c i = Some p" for xs c i p
    using that by (induction xs c i rule: indexFrom.induct) (auto split: if_splits)
  have "start + chunkSize \<le> windowEnd t start"
    by (auto simp: windowEnd_def Let_def indexOf_def split: option.splits dest: mono)
  then have "start < start'"
    using 2 by (simp add: chunkSize_def overlap_def)
  then show ?case
    using 2 by simp
qed

declare chunkLoop.simps [simp del]

definition chunkText :: "string \<Rightarrow> string list" where
  "chunkText t = chunkLoop t 0 []"

subsection \<open>initRAG\<close>

text \<open>The module's variables \<^verbatim>\<open>docs\<close>, \<^verbatim>\<open>embeddings\<close>, \<^verbatim>\<open>index\<close>, \<^verbatim>\<open>validDocs\<close>;
  \<^verbatim>\<open>index\<close> is undefined until it is assigned, and an entry of \<^verbatim>\<open>embeddings\<close> may be
  \<^verbatim>\<open>null\<close>.\<close>

record rag_state =
  docs :: "string list"
  embeddings :: "vec option list"
  index :: "faiss_index option"
  validDocs :: "string list"

definition initialState :: rag_state where
  "initialState = \<lparr> docs = [], embeddings = [], index = None, validDocs = [] \<rparr>"

text \<open>The data directory as \<^verbatim>\<open>readdirSync\<close> lists it (empty when it had to be created):
  each name with what \<^verbatim>\<open>statSync\<close> and \<^verbatim>\<open>readFileSync\<close> do for it.\<close>

datatype file_read = Unreadable | Content string

type_synonym listing = "(string \<times> file_read) list"

definition isTxt :: "string \<Rightarrow> bool" where
  "isTxt f = endsWith (toLowerCase f) ''.txt''"

definition isResumeFile :: "string \<Rightarrow> bool" where
  "isResumeFile f = (includes_str (toLowerCase f) ''resume'' \<or> includes_str (toLowerCase f) ''cv'')"

text \<open>The body of \<^verbatim>\<open>for (const file of files)\<close>: the chunks the file adds to \<^verbatim>\<open>docs\<close>. An
  error while reading is caught and the file skipped.\<close>

definition fileChunks :: "env \<Rightarrow> string \<times> file_read \<Rightarrow> string list" where
  "fileChunks e f =
     (case snd f of
        Unreadable \<Rightarrow> []
      | Content content \<Rightarrow>
          if trim content = [] then []
          else (let cleanedContent = cleanText e content in
                if cleanedContent = [] then []
                else chunkText
                       (if isResumeFile (fst f)
                        then ''[RESUME_START]\<newline>'' @ cleanedContent @ ''\<newline>[RESUME_END]''
                        else cleanedContent)))"

fun loadFiles :: "env \<Rightarrow> listing \<Rightarrow> string list \<Rightarrow> string list" where
  "loadFiles e [] ds = ds"
| "loadFiles e (f # fs) ds = loadFiles e fs (ds @ fileChunks e f)"

text \<open>One element of a batch: document \<open>i\<close> is embedded by the \<open>i\<close>-th request, on its first
  8000 characters, unless it is empty or blank.\<close>

definition embedDoc :: "env \<Rightarrow> nat \<Rightarrow> string \<Rightarrow> vec option" where
  "embedDoc e i t =
     (if t = [] \<or> trim t = [] then None else Some (getEmbedding e i (take 8000 t)))"

text \<open>\<^verbatim>\<open>for (let i = 0; i < docs.length; i += batchSize)\<close> with \<open>batchSize = 10\<close>; the
  requests of a batch run together and \<^verbatim>\<open>Promise.all\<close> keeps their order.\<close>

function embedBatches :: "env \<Rightarrow> string list \<Rightarrow> nat \<Rightarrow> vec option list \<Rightarrow> vec option list" where
  "embedBatches e ds i acc =
     (if i < length ds
      then embedBatches e ds (i + 10)
             (acc @ map (\<lambda>(idx, t). embedDoc e (i + idx) t) (enumerate 0 (take 10 (drop i ds))))
      else acc)"
  by pat_completeness auto
termination
  by (relation "measure (\<lambda>(e, ds, i, acc). length ds - i)") auto

declare embedBatches.simps [simp del]

text \<open>The filter loop: the pairs whose embedding is neither \<^verbatim>\<open>null\<close> nor empty.\<close>

definition validPairs :: "vec option list \<Rightarrow> string list \<Rightarrow> (vec \<times> string) list" where
  "validPairs embs ds =
     List.map_filter
       (\<lambda>(eo, d). case eo of None \<Rightarrow> None | Some v \<Rightarrow> (if length v > 0 then Some (v, d) else None))
       (zip embs ds)"

text \<open>\<^verbatim>\<open>initRAG\<close> returns the error it throws, if any, and the state it leaves behind.\<close>

definition initRAG :: "env \<Rightarrow> listing \<Rightarrow> rag_state \<Rightarrow> js_error option \<times> rag_state" where
  "initRAG e dir st =
     (let files = filter (\<lambda>f. isTxt (fst f)) dir in
      if files = [] then (None, st)
      else (let ds = loadFiles e files (docs st);
                embs = embedBatches e ds 0 [];
                pairs = validPairs embs ds;
                st1 = st \<lparr> docs := ds, embeddings := embs, validDocs := map snd pairs \<rparr>
            in case pairs of
                 [] \<Rightarrow> (Some (Error ''No valid embeddings were generated''), st1)
               | first # _ \<Rightarrow>
                   (let d = length (fst first);
                        fl = concat (map fst pairs)
                    in if length fl mod d \<noteq> 0
                       then (Some (Error ''Invalid flattened embeddings length for FAISS index.''),
                             st1 \<lparr> index := Some \<lparr> dim = d, flat = [] \<rparr> \<rparr>)
                       else (None, st1 \<lparr> index := Some \<lparr> dim = d, flat = fl \<rparr> \<rparr>))))"


subsection \<open>queryRAG\<close>

definition skillKeywords :: "string list" where
  "skillKeywords =
     [''skill'', ''technology'', ''tech stack'', ''programming'', ''language'',
      ''framework'', ''tool'', ''expertise'', ''proficient'', ''experience with'',
      ''technologies'', ''tools'', ''languages'', ''what can you do'', ''what do you know'',
      ''what are you good at'', ''what are your skills'', ''what are you experienced in'',
      ''technical skills'', ''technical expertise'', ''proficiency'', ''knowledge of'']"

definition isSkillsQuestion :: "string \<Rightarrow> bool" where
  "isSkillsQuestion question =
     (let questionLower = toLowerCase question
      in list_ex (\<lambda>keyword. includes_str questionLower keyword) skillKeywords)"

definition notInitialized :: js_error where
  "notInitialized = Error ''RAG system not initialized. Call initRAG() first.''"

text \<open>The separator between chunks of a context.\<close>

definition chunkSeparator :: string where
  "chunkSeparator = ''\<newline>\<newline>---\<newline>\<newline>''"

text \<open>\<^verbatim>\<open>Array.isArray(labels[0]) ? labels[0] : [labels[0]]\<close> in the skills path, where
  reading \<^verbatim>\<open>labels[0]\<close> of a missing \<^verbatim>\<open>labels\<close> throws (\<open>None\<close>) and an undefined
  \<^verbatim>\<open>labels[0]\<close> fails both comparisons of the loop, so that it selects nothing.\<close>

definition firstRow :: "search_result \<Rightarrow> (int \<times> real) list option" where
  "firstRow r =
     (case r of
        NoLabels \<Rightarrow> None
      | FlatResult [] \<Rightarrow> Some []
      | FlatResult (hit # _) \<Rightarrow> Some [hit]
      | NestedResult [] \<Rightarrow> Some []
      | NestedResult (row # _) \<Rightarrow> Some row)"

text \<open>The loop that collects the chunks of the labels in range, each text once.\<close>

fun collectChunks :: "string list \<Rightarrow> int list \<Rightarrow> string list \<Rightarrow> string list" where
  "collectChunks vdocs [] relevantChunks = relevantChunks"
| "collectChunks vdocs (idx # rest) relevantChunks =
     (if idx \<ge> 0 \<and> idx < int (length vdocs)
      then (let t = vdocs ! nat idx
            in if t \<in> set relevantChunks then collectChunks vdocs rest relevantChunks
               else collectChunks vdocs rest (relevantChunks @ [t]))
      else collectChunks vdocs rest relevantChunks)"

definition skillsPrompt :: "string \<Rightarrow> string" where
  \<open>skillsPrompt contextText =
     ''Extract and list all technical skills, programming languages, \<newline>''
     @ ''        frameworks, and tools mentioned in the following text. \<newline>''
     @ ''        Group them into categories if possible (e.g., "Programming Languages", "Frameworks", "Tools").\<newline>''
     @ ''        Only include actual technologies and skills, no explanations or additional text.\<newline>''
     @ ''        \<newline>''
     @ ''        '' @ contextText\<close>

text \<open>\<^verbatim>\<open>line.replace(/^[-\<bullet>*]\s*/, '')\<close>; the bullet character of the source's class has no
  \<^typ>\<open>char\<close> and is left out.\<close>

definition stripBullet :: "string \<Rightarrow> string" where
  "stripBullet line =
     (case line of
        [] \<Rightarrow> []
      | c # cs \<Rightarrow> (if c = CHR ''-'' \<or> c = CHR ''*'' then dropWhile isSpace cs else line))"

definition cleanSkills :: "string \<Rightarrow> string" where
  "cleanSkills skills =
     join [CHR 0x0A]
       (map (\<lambda>line. trim (stripBullet line))
          (filter (\<lambda>line. length (trim line) > 0) (splitLines skills)))"

text \<open>The \<^verbatim>\<open>try\<close> block of the skills path; \<open>Inl\<close> is what its \<^verbatim>\<open>catch\<close> swallows
  before the normal path runs.\<close>

definition skillsPath :: "env \<Rightarrow> faiss_index \<Rightarrow> string list \<Rightarrow> js_error + string" where
  "skillsPath e ix vdocs =
     (let queryEmbedding = getEmbedding e 0 ''technical skills and technologies''
      in case indexSearch e ix queryEmbedding 5 of
           Inl err \<Rightarrow> Inl err
         | Inr res \<Rightarrow>
             (case firstRow res of
                None \<Rightarrow> Inl (Error ''Cannot read properties of undefined (reading '0')'')
              | Some hits \<Rightarrow>
                  (let relevantChunks = collectChunks vdocs (map fst hits) [];
                       contextText = (if length relevantChunks > 0
                                      then join chunkSeparator relevantChunks
                                      else join chunkSeparator vdocs);
                       skills = generateResponse e 0 [] (skillsPrompt contextText)
                   in Inr (''Here are the skills and technologies mentioned in the resume:\<newline>\<newline>''
                           @ cleanSkills skills))))"

text \<open>One candidate of the normal path. The fields \<^verbatim>\<open>lineCount\<close> and \<^verbatim>\<open>avgLineLength\<close>
  of the source are computed and never read.\<close>

record candidate =
  ctext :: string
  score :: real
  originalScore :: real
  wordCount :: nat

text \<open>The \<^verbatim>\<open>.map\<close> over the labels: \<open>None\<close> is the source's \<^verbatim>\<open>null\<close> for a label out of
  range. The sum \<open>dist + 0.5\<close> is exact here, where the source rounds it to a double; for
  the distances of single precision that an index returns the two agree.\<close>

definition mkContext :: "string list \<Rightarrow> int \<times> real \<Rightarrow> candidate option" where
  "mkContext vdocs hit =
     (let idx = fst hit; dist = snd hit
      in if idx < 0 \<or> idx \<ge> int (length vdocs) then None
         else (let t = vdocs ! nat idx;
                   wc = countWords t;
                   qualityScore = (if wc < 5 \<or> wc > 200 then dist + 0.5 else dist)
               in Some \<lparr> ctext = t, score = qualityScore, originalScore = dist, wordCount = wc \<rparr>))"

text \<open>\<^verbatim>\<open>.filter(ctx => ctx !== null).sort((a, b) => a.score - b.score).slice(0, k)\<close>; the
  sort of the runtime is stable, as \<^const>\<open>sort_key\<close> is.\<close>

definition rankContexts :: "string list \<Rightarrow> nat \<Rightarrow> (int \<times> real) list \<Rightarrow> candidate list" where
  "rankContexts vdocs k hits = take k (sort_key score (List.map_filter (mkContext vdocs) hits))"

definition isResumeQuery :: "string \<Rightarrow> bool" where
  "isResumeQuery question =
     (let lowerQuestion = toLowerCase question
      in includes_str lowerQuestion ''resume'' \<or>
         includes_str lowerQuestion ''cv'' \<or>
         includes_str lowerQuestion ''experience'' \<or>
         includes_str lowerQuestion ''skill'' \<or>
         includes_str lowerQuestion ''bio'' \<or>
         includes_str lowerQuestion ''about me'')"

definition relevanceThreshold :: "string \<Rightarrow> real" where
  "relevanceThreshold question = (if isResumeQuery question then 2.5 else 1.0)"

text \<open>The prompt of the extraction path for a resume query whose context was rejected.\<close>

definition extractPrompt :: "string list \<Rightarrow> string" where
  "extractPrompt vdocs =
     (let allText = join ''\<newline>\<newline>'' vdocs;
          limitedResume = (if length allText > 2000
                           then substring allText 0 2000 @ ''... [truncated]''
                           else allText)
      in ''Extract just these details from the resume (be brief):\<newline>''
         @ ''- Name\<newline>''
         @ ''- Current role\<newline>''
         @ ''- Latest work experience\<newline>''
         @ ''- Top 3 skills\<newline>\<newline>''
         @ ''Resume (first 1000 chars):\<newline>'' @ substring limitedResume 0 1000)"

text \<open>The context assembler (\<open>maxContextLength = 800\<close>).\<close>

definition limitContext :: "string \<Rightarrow> string" where
  "limitContext contextText =
     (let maxContextLength = 800 in
      if includes_str contextText ''[RESUME]'' \<and> length contextText > maxContextLength
      then (let halfLength = maxContextLength div 2
            in substring contextText 0 halfLength
               @ ''... [middle truncated] ...''
               @ drop (length contextText - halfLength) contextText)
      else if length contextText > maxContextLength
      then substring contextText 0 maxContextLength @ ''... [truncated]''
      else contextText)"

definition timeoutError :: js_error where
  "timeoutError = Error ''Response generation timed out after 30 seconds''"

text \<open>The inner \<^verbatim>\<open>try\<close>/\<^verbatim>\<open>catch\<close> around the race. When the timer wins, the race rejects
  with \<open>timeoutError\<close>; the \<^verbatim>\<open>catch\<close> retries with the best chunk alone, as the second
  generation request, or throws the error again.\<close>

definition respondWithContext :: "env \<Rightarrow> candidate list \<Rightarrow> string \<Rightarrow> string \<Rightarrow> js_error + string" where
  "respondWithContext e contexts contextText question =
     (if \<not> raceTimerWins e
      then Inr (generateResponse e 0 (limitContext contextText) question)
      else if includes_str (message timeoutError) ''timed out'' \<and> length contexts > 1
      then Inr (generateResponse e 1 (ctext (hd contexts)) question)
      else Inl timeoutError)"

text \<open>From \<^verbatim>\<open>if (contexts.length === 0)\<close> to the end of the outer \<^verbatim>\<open>try\<close> block.\<close>

definition answerWith :: "env \<Rightarrow> string list \<Rightarrow> candidate list \<Rightarrow> string \<Rightarrow> js_error + string" where
  "answerWith e vdocs contexts question =
     (case contexts of
        [] \<Rightarrow> Inr (generateResponse e 0 [] question)
      | best # _ \<Rightarrow>
          (let contextText = join chunkSeparator (map ctext contexts)
           in if score best > relevanceThreshold question
              then (if isResumeQuery question
                    then Inr (generateResponse e 0 [] (extractPrompt vdocs))
                    else Inr (generateResponse e 0 [] question))
              else respondWithContext e contexts contextText question))"

text \<open>\<^verbatim>\<open>!labels || labels.length === 0\<close> gives \<open>None\<close>; otherwise the hits of
  \<^verbatim>\<open>labels[0]\<close> and \<^verbatim>\<open>distances[0]\<close>, an array or a single number each.\<close>

definition hitsOf :: "search_result \<Rightarrow> (int \<times> real) list option" where
  "hitsOf r =
     (case r of
        NoLabels \<Rightarrow> None
      | FlatResult [] \<Rightarrow> None
      | FlatResult (hit # _) \<Rightarrow> Some [hit]
      | NestedResult [] \<Rightarrow> None
      | NestedResult (row # _) \<Rightarrow> Some row)"

text \<open>The candidates of a query: embedding, over-fetching search, ranking. The embedding
  request is the \<open>n\<close>-th of the query.\<close>

definition candidates ::
  "env \<Rightarrow> nat \<Rightarrow> faiss_index \<Rightarrow> string list \<Rightarrow> string \<Rightarrow> nat \<Rightarrow> js_error + candidate list option" where
  "candidates e n ix vdocs question k =
     (let queryEmbedding = getEmbedding e n question;
          searchK = min (k * 2) (length vdocs)
      in case indexSearch e ix queryEmbedding searchK of
           Inl err \<Rightarrow> Inl err
         | Inr res \<Rightarrow> Inr (map_option (rankContexts vdocs k) (hitsOf res)))"

text \<open>The outer \<^verbatim>\<open>try\<close> block of the normal path.\<close>

definition retrieve ::
  "env \<Rightarrow> nat \<Rightarrow> faiss_index \<Rightarrow> string list \<Rightarrow> string \<Rightarrow> nat \<Rightarrow> js_error + string" where
  "retrieve e n ix vdocs question k =
     (case candidates e n ix vdocs question k of
        Inl err \<Rightarrow> Inl err
      | Inr None \<Rightarrow> Inr (generateResponse e 0 [] question)
      | Inr (Some contexts) \<Rightarrow> answerWith e vdocs contexts question)"

definition tooLong :: string where
  \<open>tooLong = ''I'm taking too long to process your request. The resume might be large. ''
     @ ''Could you try asking a more specific question about the resume?''\<close>

text \<open>The outer \<^verbatim>\<open>catch\<close>. Its own \<^verbatim>\<open>try\<close> cannot fail here: an error has a message and
  \<^verbatim>\<open>generateResponse\<close> does not throw.\<close>

definition ragFallback :: "env \<Rightarrow> string \<Rightarrow> js_error \<Rightarrow> string" where
  "ragFallback e question err =
     (if includes_str (message err) ''timed out'' then tooLong
      else generateResponse e 0 [] question)"

text \<open>What the skills path returns, if the question is a skills question and the path did
  not throw.\<close>

definition skillsAnswer :: "env \<Rightarrow> faiss_index \<Rightarrow> string list \<Rightarrow> string \<Rightarrow> string option" where
  "skillsAnswer e ix vdocs question =
     (if isSkillsQuestion question
      then (case skillsPath e ix vdocs of Inr answer \<Rightarrow> Some answer | Inl err \<Rightarrow> None)
      else None)"

definition queryRAG :: "env \<Rightarrow> rag_state \<Rightarrow> string \<Rightarrow> nat \<Rightarrow> js_error + string" where
  "queryRAG e st question k =
     (case index st of
        None \<Rightarrow> Inl notInitialized
      | Some ix \<Rightarrow>
          if length (validDocs st) = 0 then Inl notInitialized
          else (case skillsAnswer e ix (validDocs st) question of
                  Some answer \<Rightarrow> Inr answer
                | None \<Rightarrow>
                    (case retrieve e (if isSkillsQuestion question then 1 else 0)
                            ix (validDocs st) question k of
                       Inr answer \<Rightarrow> Inr answer
                     | Inl err \<Rightarrow> Inr (ragFallback e question err))))"

subsection \<open>The search of the index, from the specification\<close>

text \<open>Modelled from the spec: \<^verbatim>\<open>index.search\<close> belongs to the native library
  \<^verbatim>\<open>faiss-node\<close>, which is not among the source files; only its two call sites in
  \<^verbatim>\<open>queryRAG\<close> are. The specification says: "\<^verbatim>\<open>search(queryVector, k) -> (labels,
  distances)\<close> returns the k closest stored vectors by squared L2 distance, ascending, with
  ties broken by original insertion order (stable). If \<^verbatim>\<open>k\<close> exceeds the number of stored
  vectors, returns all of them."\<close>

definition l2sq :: "vec \<Rightarrow> vec \<Rightarrow> real" where
  "l2sq q v = sum_list (map (\<lambda>(a, b). (a - b)\<^sup>2) (zip q v))"

text \<open>Modelled from the spec: the result of \<^verbatim>\<open>search\<close> as pairs of a label (the
  position of insertion) and a distance. All stored vectors are ranked by distance with a
  stable sort and the first \<open>k\<close> are kept.\<close>

definition search :: "faiss_index \<Rightarrow> vec \<Rightarrow> nat \<Rightarrow> (nat \<times> real) list" where
  "search ix q k =
     take k (sort_key snd (map (\<lambda>i. (i, l2sq q (slot ix i))) [0..<ntotal ix]))"

section \<open>Notions used in the statements\<close>

text \<open>Component \<open>j\<close> of the fallback vector, in closed form: byte \<open>j mod 32\<close> of the digest
  number \<open>j div 32\<close>.\<close>

definition fallbackComponent :: "(string \<Rightarrow> nat \<Rightarrow> 8 word) \<Rightarrow> string \<Rightarrow> nat \<Rightarrow> real" where
  "fallbackComponent sha t j = scaleByte (sha (t @ ''|'' @ showNat (j div 32)) (j mod 32))"





text \<open>A query arrives on the normal path with the ranked candidates \<open>contexts\<close>: the engine is
  initialised, the skills path did not answer, the search returned hits.\<close>

definition reachesRanking :: "env \<Rightarrow> rag_state \<Rightarrow> string \<Rightarrow> nat \<Rightarrow> candidate list \<Rightarrow> bool" where
  "reachesRanking e st question k contexts =
     (case index st of
        None \<Rightarrow> False
      | Some ix \<Rightarrow>
          length (validDocs st) \<noteq> 0 \<and>
          skillsAnswer e ix (validDocs st) question = None \<and>
          candidates e (if isSkillsQuestion question then 1 else 0) ix (validDocs st) question k
            = Inr (Some contexts))"

text \<open>A query arrives on the normal path and its search returns the hits \<open>hits\<close>: the
  engine is initialised, the skills path did not answer, \<^verbatim>\<open>index.search\<close> did not throw
  and \<^verbatim>\<open>labels\<close> is not empty.\<close>

definition reachesSearch :: "env \<Rightarrow> rag_state \<Rightarrow> string \<Rightarrow> nat \<Rightarrow> (int \<times> real) list \<Rightarrow> bool" where
  "reachesSearch e st question k hits =
     (case index st of
        None \<Rightarrow> False
      | Some ix \<Rightarrow>
          length (validDocs st) \<noteq> 0 \<and>
          skillsAnswer e ix (validDocs st) question = None \<and>
          (case indexSearch e ix
                  (getEmbedding e (if isSkillsQuestion question then 1 else 0) question)
                  (min (k * 2) (length (validDocs st))) of
             Inl err \<Rightarrow> False
           | Inr res \<Rightarrow> hitsOf res = Some hits))"

text \<open>A reply of the generation endpoint on which \<^verbatim>\<open>generateResponse\<close> throws inside its
  \<^verbatim>\<open>try\<close>: everything but a JSON body with a non-empty \<^verbatim>\<open>response\<close>.\<close>

definition genFailed :: "gen_reply \<Rightarrow> bool" where
  "genFailed r = (case r of GenJson (Some t) \<Rightarrow> t = [] | _ \<Rightarrow> True)"

text \<open>The order of a stable ascending sort of (label, distance) pairs: by distance, and by
  label among equal distances.\<close>

definition closer :: "nat \<times> real \<Rightarrow> nat \<times> real \<Rightarrow> bool" where
  "closer a b = (snd a < snd b \<or> (snd a = snd b \<and> fst a < fst b))"

section \<open>Sample inputs\<close>

text \<open>A stand-in for the digest in examples: any function to bytes will do.\<close>

definition sampleDigest :: "string \<Rightarrow> nat \<Rightarrow> 8 word" where
  "sampleDigest s b = of_nat (length s * 100 + 51 * b)"

text \<open>An environment whose search returns the given hits, whose first generation request
  is answered with the prompt it carried and whose later ones fail, and whose embedder
  always answers with the same vector.\<close>

definition sampleEnv :: "(int \<times> real) list \<Rightarrow> bool \<Rightarrow> env" where
  "sampleEnv hits timer =
     \<lparr> sha256 = sampleDigest,
       embedProvider = (\<lambda>n t. EmbedJson (Some [1, 0])),
       genProvider = (\<lambda>n r. if n = 0 then GenJson (Some (prompt r))
                              else HttpNotOk 500 ''Internal Server Error''),
       indexSearch = (\<lambda>ix v k. Inr (NestedResult [hits])),
       raceTimerWins = timer,
       cleanText = (\<lambda>s. s) \<rparr>"

definition failingEnv :: env where
  "failingEnv = (sampleEnv [(0, 3 / 2), (1, 1 / 5)] False) \<lparr> genProvider := (\<lambda>n r. BodyNotJson) \<rparr>"

text \<open>An environment with two hits whose generation endpoint stays silent on the first
  request, so that \<^verbatim>\<open>generateResponse\<close> aborts it after its own 30 seconds and the fetch
  rejects, and would answer a second request.\<close>

definition abortEnv :: env where
  "abortEnv = (sampleEnv [(0, 3 / 2), (1, 1 / 5)] False)
     \<lparr> genProvider :=
         (\<lambda>n r. if n = 0 then FetchRejected ''The operation was aborted.''
                 else GenJson (Some ''Alice writes Go.'')) \<rparr>"

text \<open>An environment whose embedder answers the first request with 384 components and fails
  on the later ones.\<close>

definition mixedEnv :: env where
  "mixedEnv = (sampleEnv [] False)
     \<lparr> embedProvider :=
         (\<lambda>n t. if n = 0 then EmbedJson (Some (replicate 384 (1 / 2))) else EmbedFailed) \<rparr>"

definition sampleDir :: listing where
  "sampleDir =
     [(''resume.txt'', Content ''Alice knows Go, Rust and Python well''),
      (''notes.txt'', Content ''short note'')]"

definition twoFiles :: listing where
  "twoFiles = [(''a.txt'', Content ''first''), (''b.txt'', Content ''second'')]"

definition sampleDocs :: "string list" where
  "sampleDocs =
     [''[RESUME_START]\<newline>Alice knows Go, Rust and Python well\<newline>[RESUME_END]'',
      ''short note'']"

text \<open>The state that \<^verbatim>\<open>initRAG\<close> builds from \<open>sampleDir\<close>.\<close>

definition sampleState :: rag_state where
  "sampleState =
     \<lparr> docs = sampleDocs,
       embeddings = [Some [1, 0], Some [1, 0]],
       index = Some \<lparr> dim = 2, flat = [1, 0, 1, 0] \<rparr>,
       validDocs = sampleDocs \<rparr>"

definition resumeCandidate :: "real \<Rightarrow> candidate" where
  "resumeCandidate d = \<lparr> ctext = sampleDocs ! 0, score = d, originalScore = d, wordCount = 9 \<rparr>"

definition noteCandidate :: "real \<Rightarrow> candidate" where
  "noteCandidate d = \<lparr> ctext = sampleDocs ! 1, score = d + 0.5, originalScore = d, wordCount = 2 \<rparr>"

text \<open>The chunk of a file \<^verbatim>\<open>resume.txt\<close> that holds 900 letters.\<close>

definition longResume :: string where
  "longResume = ''[RESUME_START]\<newline>'' @ replicate 900 (CHR ''a'') @ ''\<newline>[RESUME_END]''"



text \<open>An index of three vectors of one component; the first and the third are equally far
  from the query \<open>[0]\<close>.\<close>

definition sampleIndex :: faiss_index where
  "sampleIndex = \<lparr> dim = 1, flat = [1, 0, 1] \<rparr>"

section \<open>Properties\<close>

subsection \<open>The fallback embedding\<close>

lemma fillFromDigest_spec:
  "length floats = d \<Longrightarrow> i \<le> d \<Longrightarrow> b \<le> 32 \<Longrightarrow>
   fillFromDigest h d b floats i = (fl', i') \<Longrightarrow>
   i' = min d (i + (32 - b)) \<and> length fl' = d \<and>
   (\<forall>j<d. fl' ! j = (if i \<le> j \<and> j < i' then scaleByte (h (b + (j - i))) else floats ! j))"
proof (induction h d b floats i arbitrary: fl' i' rule: fillFromDigest.induct)
  case (1 h d b floats i)
  show ?case
  proof (cases "b < 32 \<and> i < d")
    case True
    then have run: "fillFromDigest h d (b + 1) (floats[i := scaleByte (h b)]) (i + 1) = (fl', i')"
      using "1.prems"(4) by (subst (asm) fillFromDigest.simps) simp
    have IH: "i' = min d (i + 1 + (32 - (b + 1))) \<and> length fl' = d \<and>
      (\<forall>j<d. fl' ! j = (if i + 1 \<le> j \<and> j < i' then scaleByte (h (b + 1 + (j - (i + 1))))
                         else (floats[i := scaleByte (h b)]) ! j))"
      using "1.IH" [OF True _ _ _ run] True "1.prems"(1) by simp
    have "i + 1 + (32 - (b + 1)) = i + (32 - b)"
      using True by arith
    then have i': "i' = min d (i + (32 - b))"
      using IH by simp
    have "fl' ! j = (if i \<le> j \<and> j < i' then scaleByte (h (b + (j - i))) else floats ! j)"
      if "j < d" for j
    proof (cases "j = i")
      case same: True
      have "i < i'" using i' True by auto
      moreover have "fl' ! i = (floats[i := scaleByte (h b)]) ! i"
        using IH True by simp
      ultimately show ?thesis using same True "1.prems"(1) by simp
    next
      case False
      have step: "fl' ! j = (if i + 1 \<le> j \<and> j < i'
          then scaleByte (h (b + 1 + (j - (i + 1))))
          else (floats[i := scaleByte (h b)]) ! j)"
        using IH that by blast
      show ?thesis
      proof (cases "i < j")
        case above: True
        then have ar: "b + 1 + (j - (i + 1)) = b + (j - i)" by arith
        show ?thesis using step above False unfolding ar by auto
      next
        case below: False
        then show ?thesis using step False by auto
      qed
    qed
    then show ?thesis using IH i' by blast
  next
    case False
    then have "(fl', i') = (floats, i)"
      using "1.prems"(4) by (subst (asm) fillFromDigest.simps) (auto split: if_splits)
    then show ?thesis using False "1.prems" by auto
  qed
qed

lemma fillFloats_spec:
  "length floats = d \<Longrightarrow> i \<le> d \<Longrightarrow> (i < d \<longrightarrow> i = 32 * counter) \<Longrightarrow>
   (\<forall>j<i. floats ! j = fallbackComponent sha t j) \<Longrightarrow>
   length (fillFloats sha t d floats i counter) = d \<and>
   (\<forall>j<d. fillFloats sha t d floats i counter ! j = fallbackComponent sha t j)"
proof (induction sha t d floats i counter rule: fillFloats.induct)
  case (1 sha t d floats i counter)
  show ?case
  proof (cases "i < d")
    case False
    then show ?thesis using "1.prems" by (subst fillFloats.simps, subst (2) fillFloats.simps) simp
  next
    case True
    let ?h = "sha (t @ ''|'' @ showNat counter)"
    obtain fl' i' where run: "fillFromDigest ?h d 0 floats i = (fl', i')"
      by (cases "fillFromDigest ?h d 0 floats i") auto
    have sp: "i' = min d (i + 32) \<and> length fl' = d \<and>
       (\<forall>j<d. fl' ! j = (if i \<le> j \<and> j < i' then scaleByte (?h (j - i)) else floats ! j))"
      using fillFromDigest_spec [OF "1.prems"(1) "1.prems"(2) _ run] by simp
    have i32: "i = 32 * counter" using True "1.prems"(3) by simp
    have pre: "\<forall>j<i'. fl' ! j = fallbackComponent sha t j"
    proof (intro allI impI)
      fix j assume j: "j < i'"
      then have jd: "j < d" using sp by simp
      show "fl' ! j = fallbackComponent sha t j"
      proof (cases "i \<le> j")
        case inside: True
        have "j < 32 * counter + 32" using j sp i32 by simp
        then have "j div 32 = counter" "j mod 32 = j - i"
          using inside i32 by (auto simp: div_nat_eqI mod_nat_eqI)
        then show ?thesis using sp jd inside j by (simp add: fallbackComponent_def)
      next
        case False
        then show ?thesis using sp jd "1.prems"(4) by simp
      qed
    qed
    have "length (fillFloats sha t d fl' i' (counter + 1)) = d \<and>
      (\<forall>j<d. fillFloats sha t d fl' i' (counter + 1) ! j = fallbackComponent sha t j)"
      using "1.IH" [OF True run [symmetric]] sp pre i32 by auto
    moreover have "fillFloats sha t d floats i counter = fillFloats sha t d fl' i' (counter + 1)"
      using True run by (subst fillFloats.simps) simp
    ultimately show ?thesis by simp
  qed
qed

lemma scaleByte_range: "- 1 \<le> scaleByte b \<and> scaleByte b \<le> 1"
proof -
  have "unat b < 256" using unsigned_less [of b] by simp
  then have "unat b \<le> 255" by simp
  then have "real (unat b) \<le> real 255" by (rule of_nat_mono)
  moreover have "(0::real) \<le> real (unat b)" by (rule of_nat_0_le_iff)
  ultimately show ?thesis by (simp add: scaleByte_def)
qed

lemma fallbackEmbeddingSync_closed_form:
  "fallbackEmbeddingSync sha t d = map (fallbackComponent sha t) [0..<d]"
proof -
  have "length (fallbackEmbeddingSync sha t d) = d \<and>
     (\<forall>j<d. fallbackEmbeddingSync sha t d ! j = fallbackComponent sha t j)"
    unfolding fallbackEmbeddingSync_def
    by (rule fillFloats_spec) auto
  then show ?thesis by (auto intro: nth_equalityI)
qed

lemma length_fallbackEmbeddingSync [simp]: "length (fallbackEmbeddingSync sha t d) = d"
  by (simp add: fallbackEmbeddingSync_closed_form)

text \<open>
  \<^bold>\<open>Claim C6.\<close> For every digest function, every text and every dimension \<open>d\<close> (in particular
  every \<open>d > 0\<close>), \<^verbatim>\<open>fallbackEmbeddingSync(text, d)\<close> has exactly \<open>d\<close> components, each of
  them lies in \<open>[-1, 1]\<close>, and component \<open>j\<close> is \<open>(b / 255) * 2 - 1\<close> for byte \<open>b\<close> number
  \<open>j mod 32\<close> of the digest of \<^verbatim>\<open>text + "|" + counter\<close> with \<open>counter = j div 32\<close>, the
  counter starting at 0. The vector is a function of the digest, the text and \<open>d\<close> alone:
  identical arguments give identical vectors.
\<close>

theorem fallbackEmbeddingSync_vector:
  "length (fallbackEmbeddingSync sha t d) = d
   \<and> (\<forall>x \<in> set (fallbackEmbeddingSync sha t d). - 1 \<le> x \<and> x \<le> 1)
   \<and> fallbackEmbeddingSync sha t d
       = map (\<lambda>j. (real (unat (sha (t @ ''|'' @ showNat (j div 32)) (j mod 32))) / 255) * 2 - 1)
           [0..<d]"
proof -
  have eq: "fallbackEmbeddingSync sha t d = map (fallbackComponent sha t) [0..<d]"
    by (rule fallbackEmbeddingSync_closed_form)
  have "\<forall>x \<in> set (map (fallbackComponent sha t) [0..<d]). - 1 \<le> x \<and> x \<le> 1"
    using scaleByte_range by (auto simp: fallbackComponent_def)
  then show ?thesis
    using eq by (simp add: fallbackComponent_def scaleByte_def)
qed

theorem fallbackEmbeddingSync_vector_witness:
  "length (fallbackEmbeddingSync sampleDigest ''ab'' 3) = 3
   \<and> list_all (\<lambda>x. - 1 \<le> x \<and> x \<le> 1) (fallbackEmbeddingSync sampleDigest ''ab'' 3)
   \<and> fallbackEmbeddingSync sampleDigest ''ab'' 3 = [11 / 85, 9 / 17, 79 / 85]"
proof -
  have v: "fallbackEmbeddingSync sampleDigest ''ab'' 3 = [11 / 85, 9 / 17, 79 / 85]"
    by code_simp
  from fallbackEmbeddingSync_vector [of sampleDigest "''ab''" 3] v
  show ?thesis unfolding list_all_iff by blast
qed

subsection \<open>The answer generator\<close>

lemma generateResponse_failed:
  "genFailed (genProvider e n (genRequest c q)) \<Longrightarrow> generateResponse e n c q = apology"
  by (auto simp: generateResponse_def genFailed_def split: gen_reply.splits option.splits)

text \<open>
  \<^bold>\<open>Claim C10.\<close> For every question and every two context strings that agree on their first
  1000 characters, \<^verbatim>\<open>generateResponse\<close> builds the same request (the same prompt, the
  same \<^verbatim>\<open>num_predict\<close> and \<^verbatim>\<open>stop\<close>) and, the provider behaving the same, returns the
  same answer. In particular the answer for a context is the answer for its first 1000
  characters: nothing behind them reaches the provider, whether the context comes from
  the assembler or from the retry with the best chunk.
\<close>

theorem generateResponse_context_prefix:
  assumes "take 1000 c1 = take 1000 c2"
  shows "genRequest c1 q = genRequest c2 q
    \<and> generateResponse e n c1 q = generateResponse e n c2 q
    \<and> generateResponse e n c1 q = generateResponse e n (take 1000 c1) q"
proof -
  have empty: "c1 = [] \<longleftrightarrow> c2 = []"
    using assms by (cases c1; cases c2) auto
  have req: "genRequest c1 q = genRequest c2 q"
    using assms empty by (simp add: genRequest_def buildPrompt_def substring_def)
  have "take 1000 c1 = [] \<longleftrightarrow> c1 = []"
    by (cases c1) auto
  then have "genRequest c1 q = genRequest (take 1000 c1) q"
    by (simp add: genRequest_def buildPrompt_def substring_def)
  then show ?thesis
    using req by (simp add: generateResponse_def)
qed

theorem generateResponse_context_prefix_witness:
  "replicate 1000 (CHR ''a'') @ ''x'' \<noteq> replicate 1000 (CHR ''a'') @ ''y''
   \<and> generateResponse (sampleEnv [] False) 0 (replicate 1000 (CHR ''a'') @ ''x'') ''who?''
     = generateResponse (sampleEnv [] False) 0 (replicate 1000 (CHR ''a'') @ ''y'') ''who?''"
proof -
  have pre: "take 1000 (replicate 1000 (CHR ''a'') @ ''x'')
      = take 1000 (replicate 1000 (CHR ''a'') @ ''y'')"
    by simp
  show ?thesis
    using generateResponse_context_prefix [OF pre, of "''who?''" "sampleEnv [] False" 0] by simp
qed

subsection \<open>The query pipeline\<close>

lemma queryRAG_ranked:
  assumes "reachesRanking e st q k contexts"
  shows "queryRAG e st q k =
     Inr (case answerWith e (validDocs st) contexts q of
            Inr answer \<Rightarrow> answer | Inl err \<Rightarrow> ragFallback e q err)"
proof -
  obtain ix where ix: "index st = Some ix"
    and docs: "length (validDocs st) \<noteq> 0"
    and skills: "skillsAnswer e ix (validDocs st) q = None"
    and cands: "candidates e (if isSkillsQuestion q then 1 else 0) ix (validDocs st) q k
                  = Inr (Some contexts)"
    using assms by (auto simp: reachesRanking_def split: option.splits)
  show ?thesis
    unfolding queryRAG_def retrieve_def ix using docs skills cands
    by (simp split: sum.splits)
qed

lemma queryRAG_accepted:
  assumes "reachesRanking e st q k (best # others)" and "score best \<le> relevanceThreshold q"
  shows "queryRAG e st q k =
     Inr (case respondWithContext e (best # others)
                 (join chunkSeparator (map ctext (best # others))) q of
            Inr answer \<Rightarrow> answer | Inl err \<Rightarrow> ragFallback e q err)"
  unfolding queryRAG_ranked [OF assms(1)] using assms(2)
  by (simp add: answerWith_def Let_def not_less [symmetric])

lemma queryRAG_rejected:
  assumes "reachesRanking e st q k (best # others)" and "\<not> score best \<le> relevanceThreshold q"
  shows "queryRAG e st q k =
     Inr (if isResumeQuery q then generateResponse e 0 [] (extractPrompt (validDocs st))
          else generateResponse e 0 [] q)"
  unfolding queryRAG_ranked [OF assms(1)] using assms(2)
  by (simp add: answerWith_def Let_def not_less [symmetric])

text \<open>The sample state is what \<^verbatim>\<open>initRAG\<close> builds from the sample directory, and the sample
  queries arrive on the normal path.\<close>

lemma initRAG_sample: "initRAG (sampleEnv [] False) sampleDir initialState = (None, sampleState)"
  by code_simp

lemma initRAG_success_initialized:
  assumes "initRAG e dir st = (None, st')" and "filter (\<lambda>f. isTxt (fst f)) dir \<noteq> []"
  shows "index st' \<noteq> None \<and> validDocs st' \<noteq> []"
  using assms by (auto simp: initRAG_def Let_def split: list.splits if_splits)

lemma resume_query:
  "isResumeQuery ''tell me about your cv''" "\<not> isResumeQuery ''what is the weather''"
  by code_simp+

lemma note_accepted: "score (noteCandidate (1 / 5)) \<le> relevanceThreshold ''tell me about your cv''"
  using resume_query(1) by (simp add: noteCandidate_def relevanceThreshold_def)

text \<open>
  \<^bold>\<open>Claim C1.\<close> For every question, every \<open>k\<close> and every behaviour of the providers, the
  index and the timer: when an index exists and \<^verbatim>\<open>validDocs\<close> is not empty (the state a
  successful \<^verbatim>\<open>initRAG\<close> leaves, see \<open>initRAG_success_initialized\<close>), \<^verbatim>\<open>queryRAG\<close>
  returns a string and throws nothing; when there is no index or no valid document, it
  throws the error whose message is "RAG system not initialized. Call initRAG() first.",
  which no other path of \<^verbatim>\<open>queryRAG\<close> lets out.
\<close>

theorem queryRAG_answers_or_not_initialized:
  "(index st \<noteq> None \<and> validDocs st \<noteq> [] \<longrightarrow> (\<exists>answer. queryRAG e st q k = Inr answer))
   \<and> (index st = None \<or> validDocs st = [] \<longrightarrow>
        queryRAG e st q k = Inl (Error ''RAG system not initialized. Call initRAG() first.''))"
  by (auto simp: queryRAG_def notInitialized_def split: option.splits sum.splits)

theorem queryRAG_answers_or_not_initialized_witness:
  "(\<exists>answer. queryRAG (sampleEnv [(0, 12 / 5)] False) sampleState ''tell me about your cv'' 5
       = Inr answer)
   \<and> queryRAG (sampleEnv [(0, 12 / 5)] False) initialState ''tell me about your cv'' 5
       = Inl (Error ''RAG system not initialized. Call initRAG() first.'')"
proof -
  have a: "index sampleState \<noteq> None \<and> validDocs sampleState \<noteq> []"
    by (simp add: sampleState_def sampleDocs_def)
  have b: "index initialState = None \<or> validDocs initialState = []"
    by (simp add: initialState_def)
  show ?thesis
    using queryRAG_answers_or_not_initialized
        [of sampleState "sampleEnv [(0, 12 / 5)] False" "''tell me about your cv''" 5]
      queryRAG_answers_or_not_initialized
        [of initialState "sampleEnv [(0, 12 / 5)] False" "''tell me about your cv''" 5]
      a b by blast
qed

text \<open>The quality score of a candidate is its distance, plus 0.5 when its word count lies
  outside \<open>[5, 200]\<close>; the first of the ranked candidates is a candidate, and has the least
  quality score of all candidates.\<close>

lemma mkContext_score:
  "mkContext vdocs hit = Some c \<Longrightarrow>
   score c = snd hit + (if countWords (ctext c) < 5 \<or> countWords (ctext c) > 200 then 0.5 else 0)"
  by (auto simp: mkContext_def Let_def split: if_splits)

lemma rankContexts_best:
  assumes "rankContexts vdocs k hits = best # others"
  shows "\<forall>c \<in> set (List.map_filter (mkContext vdocs) hits). score best \<le> score c"
proof -
  let ?cs = "sort_key score (List.map_filter (mkContext vdocs) hits)"
  have tk: "take k ?cs = best # others"
    using assms by (simp add: rankContexts_def)
  then obtain rest where cs: "?cs = best # rest"
    by (cases ?cs; cases k) auto
  have "sorted (map score ?cs)"
    by simp
  then have "\<forall>c \<in> set ?cs. score best \<le> score c"
    unfolding cs by auto
  then show ?thesis by simp
qed

lemma reachesSearch_ranking:
  assumes "reachesSearch e st q k hits"
  shows "reachesRanking e st q k (rankContexts (validDocs st) k hits)"
proof -
  obtain ix res where ix: "index st = Some ix"
    and docs: "length (validDocs st) \<noteq> 0"
    and skills: "skillsAnswer e ix (validDocs st) q = None"
    and res: "indexSearch e ix (getEmbedding e (if isSkillsQuestion q then 1 else 0) q)
                (min (k * 2) (length (validDocs st))) = Inr res"
    and hits: "hitsOf res = Some hits"
    using assms unfolding reachesSearch_def
    by (cases "index st"; cases "indexSearch e (the (index st))
          (getEmbedding e (if isSkillsQuestion q then 1 else 0) q)
          (min (k * 2) (length (validDocs st)))") auto
  show ?thesis
    unfolding reachesRanking_def candidates_def ix Let_def using docs skills res hits
    by simp
qed

lemma extractPrompt_take:
  "extractPrompt vdocs =
     ''Extract just these details from the resume (be brief):\<newline>- Name\<newline>- Current role\<newline>- Latest work experience\<newline>- Top 3 skills\<newline>\<newline>Resume (first 1000 chars):\<newline>''
     @ take 1000 (join ''\<newline>\<newline>'' vdocs)"
  by (auto simp: extractPrompt_def Let_def substring_def)

lemma isResumeQuery_keywords:
  "isResumeQuery q = list_ex (includes_str (toLowerCase q))
     [''resume'', ''cv'', ''experience'', ''skill'', ''bio'', ''about me'']"
  by (simp add: isResumeQuery_def Let_def)

lemma rankContexts_head_candidate:
  assumes "rankContexts vdocs k hits = best # others"
  shows "best \<in> set (List.map_filter (mkContext vdocs) hits)"
proof -
  have "best \<in> set (take k (sort_key score (List.map_filter (mkContext vdocs) hits)))"
    using assms by (simp add: rankContexts_def)
  then have "best \<in> set (sort_key score (List.map_filter (mkContext vdocs) hits))"
    by (rule in_set_takeD)
  then show ?thesis by simp
qed

lemma candidate_quality:
  assumes "c \<in> set (List.map_filter (mkContext vdocs) hits)"
  shows "score c = originalScore c
           + (if countWords (ctext c) < 5 \<or> 200 < countWords (ctext c) then 0.5 else 0)
     \<and> (\<exists>hit \<in> set hits. 0 \<le> fst hit \<and> fst hit < int (length vdocs)
           \<and> ctext c = vdocs ! nat (fst hit) \<and> originalScore c = snd hit)"
proof -
  obtain hit where hit: "hit \<in> set hits" and mk: "mkContext vdocs hit = Some c"
    using assms by (auto simp: List.map_filter_def)
  have range: "0 \<le> fst hit \<and> fst hit < int (length vdocs)"
    using mk by (auto simp: mkContext_def Let_def split: if_splits)
  then have c: "c = \<lparr> ctext = vdocs ! nat (fst hit),
      score = (if countWords (vdocs ! nat (fst hit)) < 5 \<or> countWords (vdocs ! nat (fst hit)) > 200
               then snd hit + 0.5 else snd hit),
      originalScore = snd hit, wordCount = countWords (vdocs ! nat (fst hit)) \<rparr>"
    using mk by (simp add: mkContext_def Let_def)
  have "ctext c = vdocs ! nat (fst hit) \<and> originalScore c = snd hit"
    unfolding c by simp
  moreover have "score c = originalScore c
           + (if countWords (ctext c) < 5 \<or> 200 < countWords (ctext c) then 0.5 else 0)"
    unfolding c by simp
  ultimately show ?thesis
    using hit range by blast
qed

lemma generateResponse_context_free:
  "generateResponse e n [] p =
      (case genProvider e n
                   \<lparr> prompt = ''[INST] <|system|>You are a helpful AI assistant. Answer the following question helpfully and concisely.</s>\<newline><|user|>''
                              @ p @ ''[/INST]'',
                     num_predict = 200, stop = None \<rparr> of
              GenJson (Some r) \<Rightarrow> (if r = [] then apology else trim r)
            | _ \<Rightarrow> apology)"
  by (simp add: generateResponse_def genRequest_def buildPrompt_def split: gen_reply.splits option.splits)

lemma search_samples:
  "reachesSearch (sampleEnv [(0, 12 / 5)] False) sampleState ''tell me about your cv'' 5 [(0, 12 / 5)]"
  "reachesSearch (sampleEnv [(0, 3 / 2)] False) sampleState ''what is the weather'' 5 [(0, 3 / 2)]"
  "reachesSearch (sampleEnv [(0, 3)] False) sampleState ''tell me about your cv'' 5 [(0, 3)]"
  by code_simp+

lemma rank_samples:
  "rankContexts (validDocs sampleState) 5 [(0, 12 / 5)] = [resumeCandidate (12 / 5)]"
  "rankContexts (validDocs sampleState) 5 [(0, 3 / 2)] = [resumeCandidate (3 / 2)]"
  "rankContexts (validDocs sampleState) 5 [(0, 3)] = [resumeCandidate 3]"
  by code_simp+

lemma answer_accepted:
  "generateResponse (sampleEnv [(0, 12 / 5)] False) 0
     (limitContext (join chunkSeparator (map ctext [resumeCandidate (12 / 5)]))) ''tell me about your cv''
   = ''[INST] <|system|>You are a helpful assistant. Answer based on the provided context.</s>\<newline><|user|>Context: [RESUME_START]\<newline>Alice knows Go, Rust and Python well\<newline>[RESUME_END]...\<newline>\<newline>Question: tell me about your cv\<newline>\<newline>Answer helpfully: [/INST]''"
  by code_simp

lemma answer_general:
  "generateResponse (sampleEnv [(0, 3 / 2)] False) 0 [] ''what is the weather''
   = ''[INST] <|system|>You are a helpful AI assistant. Answer the following question helpfully and concisely.</s>\<newline><|user|>what is the weather[/INST]''"
  by code_simp

lemma answer_extraction:
  "generateResponse (sampleEnv [(0, 3)] False) 0 [] (extractPrompt (validDocs sampleState))
   = ''[INST] <|system|>You are a helpful AI assistant. Answer the following question helpfully and concisely.</s>\<newline><|user|>Extract just these details from the resume (be brief):\<newline>- Name\<newline>- Current role\<newline>- Latest work experience\<newline>- Top 3 skills\<newline>\<newline>Resume (first 1000 chars):\<newline>[RESUME_START]\<newline>Alice knows Go, Rust and Python well\<newline>[RESUME_END]\<newline>\<newline>short note[/INST]''"
  by code_simp

lemma keyword_samples:
  "list_ex (includes_str (toLowerCase ''tell me about your cv''))
     [''resume'', ''cv'', ''experience'', ''skill'', ''bio'', ''about me'']"
  "\<not> list_ex (includes_str (toLowerCase ''what is the weather''))
     [''resume'', ''cv'', ''experience'', ''skill'', ''bio'', ''about me'']"
  by code_simp+


text \<open>
  \<^bold>\<open>Claim C2.\<close> For every query that arrives on the normal path, whose search returns hits
  and whose ranking of them is \<open>best # others\<close>:
  \<^item> \<open>best\<close> is the candidate of least quality score, the quality score being the
    distance plus 0.5 when the word count of the chunk lies outside \<open>[5, 200]\<close>;
  \<^item> the threshold is 2.5 when the lower-cased question contains one of the keywords
    "resume", "cv", "experience", "skill", "bio", "about me", and 1.0 otherwise;
  \<^item> the context is accepted if and only if the quality score of \<open>best\<close> is at most the
    threshold: then the answer is generated with context (from the assembled context
    when the timer of the race does not win, and otherwise from the best chunk alone
    or, with one candidate, the fixed "taking too long" message);
  \<^item> when it is rejected, the answer is the context-free one, the reply to the request
    with the general prompt, 200 tokens and no stop sequence: for a question without
    keyword the prompt carries the question, for a question with keyword it carries the
    extraction instructions followed by the first 1000 characters of all documents
    joined by blank lines;
  \<^item> in particular a keyword question whose best score is 2.4 is accepted, and a question
    without keyword whose best score is 1.5 gets the context-free answer to the
    question.
\<close>

theorem relevance_threshold_decides:
  assumes "reachesSearch e st q k hits"
    and "rankContexts (validDocs st) k hits = best # others"
  shows
    "(let keyword = list_ex (includes_str (toLowerCase q))
                      [''resume'', ''cv'', ''experience'', ''skill'', ''bio'', ''about me''];
          threshold = (if keyword then 2.5 else 1.0 :: real);
          joined = join chunkSeparator (map ctext (best # others));
          withContext =
            (if raceTimerWins e
             then (if others \<noteq> [] then generateResponse e 1 (ctext best) q else tooLong)
             else generateResponse e 0 (limitContext joined) q);
          contextFree = (\<lambda>p.
            case genProvider e 0
                   \<lparr> prompt = ''[INST] <|system|>You are a helpful AI assistant. Answer the following question helpfully and concisely.</s>\<newline><|user|>''
                              @ p @ ''[/INST]'',
                     num_predict = 200, stop = None \<rparr> of
              GenJson (Some r) \<Rightarrow> (if r = [] then apology else trim r)
            | _ \<Rightarrow> apology);
          extraction =
            ''Extract just these details from the resume (be brief):\<newline>- Name\<newline>- Current role\<newline>- Latest work experience\<newline>- Top 3 skills\<newline>\<newline>Resume (first 1000 chars):\<newline>''
            @ take 1000 (join ''\<newline>\<newline>'' (validDocs st))
      in (\<forall>c \<in> set (List.map_filter (mkContext (validDocs st)) hits). score best \<le> score c)
       \<and> score best = originalScore best
            + (if countWords (ctext best) < 5 \<or> 200 < countWords (ctext best) then 0.5 else 0)
       \<and> isResumeQuery q = keyword
       \<and> relevanceThreshold q = threshold
       \<and> queryRAG e st q k = Inr
            (if score best \<le> threshold then withContext
             else if keyword then contextFree extraction
             else contextFree q)
       \<and> (keyword \<and> score best = 2.4 \<longrightarrow> queryRAG e st q k = Inr withContext)
       \<and> (\<not> keyword \<and> score best = 1.5 \<longrightarrow> queryRAG e st q k = Inr (contextFree q)))"
proof -
  let ?keyword = "list_ex (includes_str (toLowerCase q))
                      [''resume'', ''cv'', ''experience'', ''skill'', ''bio'', ''about me'']"
  have kw: "isResumeQuery q = ?keyword"
    by (rule isResumeQuery_keywords)
  have th: "relevanceThreshold q = (if ?keyword then 2.5 else 1)"
    unfolding relevanceThreshold_def kw by simp
  have least: "\<forall>c \<in> set (List.map_filter (mkContext (validDocs st)) hits). score best \<le> score c"
    using rankContexts_best [OF assms(2)] .
  have quality: "score best = originalScore best
            + (if countWords (ctext best) < 5 \<or> 200 < countWords (ctext best) then 0.5 else 0)"
    using candidate_quality [OF rankContexts_head_candidate [OF assms(2)]] by blast
  have reach: "reachesRanking e st q k (best # others)"
    using reachesSearch_ranking [OF assms(1)] assms(2) by simp
  have msg: "includes_str (message timeoutError) ''timed out''"
    by code_simp
  have free: "generateResponse e 0 [] p =
      (case genProvider e 0
                   \<lparr> prompt = ''[INST] <|system|>You are a helpful AI assistant. Answer the following question helpfully and concisely.</s>\<newline><|user|>''
                              @ p @ ''[/INST]'',
                     num_predict = 200, stop = None \<rparr> of
              GenJson (Some r) \<Rightarrow> (if r = [] then apology else trim r)
            | _ \<Rightarrow> apology)" for p
    by (simp add: generateResponse_def genRequest_def buildPrompt_def split: gen_reply.splits option.splits)
  show ?thesis
  proof (cases "score best \<le> relevanceThreshold q")
    case True
    have "queryRAG e st q k = Inr
            (if raceTimerWins e
             then (if others \<noteq> [] then generateResponse e 1 (ctext best) q else tooLong)
             else generateResponse e 0 (limitContext (join chunkSeparator (map ctext (best # others)))) q)"
      unfolding queryRAG_accepted [OF reach True] using msg
      by (auto simp: respondWithContext_def ragFallback_def)
    then show ?thesis
      using True least quality kw th unfolding Let_def by (auto split: if_splits)
  next
    case False
    have "queryRAG e st q k = Inr
            (if ?keyword then generateResponse e 0 [] (extractPrompt (validDocs st))
             else generateResponse e 0 [] q)"
      unfolding queryRAG_rejected [OF reach False] kw by simp
    then show ?thesis
      using False least quality kw th unfolding Let_def free extractPrompt_take
      by (auto split: if_splits)
  qed
qed

theorem relevance_threshold_decides_witness:
  "queryRAG (sampleEnv [(0, 12 / 5)] False) sampleState ''tell me about your cv'' 5
     = Inr ''[INST] <|system|>You are a helpful assistant. Answer based on the provided context.</s>\<newline><|user|>Context: [RESUME_START]\<newline>Alice knows Go, Rust and Python well\<newline>[RESUME_END]...\<newline>\<newline>Question: tell me about your cv\<newline>\<newline>Answer helpfully: [/INST]''
   \<and> queryRAG (sampleEnv [(0, 3 / 2)] False) sampleState ''what is the weather'' 5
     = Inr ''[INST] <|system|>You are a helpful AI assistant. Answer the following question helpfully and concisely.</s>\<newline><|user|>what is the weather[/INST]''
   \<and> queryRAG (sampleEnv [(0, 3)] False) sampleState ''tell me about your cv'' 5
     = Inr ''[INST] <|system|>You are a helpful AI assistant. Answer the following question helpfully and concisely.</s>\<newline><|user|>Extract just these details from the resume (be brief):\<newline>- Name\<newline>- Current role\<newline>- Latest work experience\<newline>- Top 3 skills\<newline>\<newline>Resume (first 1000 chars):\<newline>[RESUME_START]\<newline>Alice knows Go, Rust and Python well\<newline>[RESUME_END]\<newline>\<newline>short note[/INST]''"
proof -
  have timer: "\<not> raceTimerWins (sampleEnv hits False)" for hits
    by (simp add: sampleEnv_def)
  have a: "queryRAG (sampleEnv [(0, 12 / 5)] False) sampleState ''tell me about your cv'' 5
     = Inr (generateResponse (sampleEnv [(0, 12 / 5)] False) 0
         (limitContext (join chunkSeparator (map ctext [resumeCandidate (12 / 5)])))
         ''tell me about your cv'')"
    using relevance_threshold_decides [OF search_samples(1) rank_samples(1)]
      keyword_samples(1) timer
    unfolding Let_def by (simp add: resumeCandidate_def)
  have b: "queryRAG (sampleEnv [(0, 3 / 2)] False) sampleState ''what is the weather'' 5
     = Inr (generateResponse (sampleEnv [(0, 3 / 2)] False) 0 [] ''what is the weather'')"
    using relevance_threshold_decides [OF search_samples(2) rank_samples(2)]
      keyword_samples(2)
    unfolding Let_def generateResponse_context_free by (simp add: resumeCandidate_def)
  have c: "queryRAG (sampleEnv [(0, 3)] False) sampleState ''tell me about your cv'' 5
     = Inr (generateResponse (sampleEnv [(0, 3)] False) 0 []
         (extractPrompt (validDocs sampleState)))"
    using relevance_threshold_decides [OF search_samples(3) rank_samples(3)]
      keyword_samples(1)
    unfolding Let_def generateResponse_context_free extractPrompt_take
    by (simp add: resumeCandidate_def)
  show ?thesis
    using a b c unfolding answer_accepted answer_general answer_extraction by simp
qed

text \<open>The branch of the retry: when the timer of the race in \<^verbatim>\<open>queryRAG\<close> rejects before
  \<^verbatim>\<open>generateResponse\<close> has settled and there is more than one candidate, the answer is
  that of a second generation request with the best chunk alone; a failed generation
  gives the apology; with one candidate the answer is the "taking too long" message.\<close>

lemma race_timer_retry:
  assumes "reachesRanking e st q k (best # others)"
    and "score best \<le> relevanceThreshold q"
  shows "(raceTimerWins e \<and> others \<noteq> [] \<longrightarrow>
            queryRAG e st q k = Inr (generateResponse e 1 (ctext best) q))
    \<and> (raceTimerWins e \<and> others \<noteq> [] \<and> genFailed (genProvider e 1 (genRequest (ctext best) q)) \<longrightarrow>
            queryRAG e st q k = Inr apology)
    \<and> (\<not> raceTimerWins e \<and>
         genFailed (genProvider e 0
           (genRequest (limitContext (join chunkSeparator (map ctext (best # others)))) q)) \<longrightarrow>
            queryRAG e st q k = Inr apology)
    \<and> (raceTimerWins e \<and> others = [] \<longrightarrow> queryRAG e st q k = Inr tooLong)
    \<and> (\<exists>answer. queryRAG e st q k = Inr answer)"
proof -
  have msg: "includes_str (message timeoutError) ''timed out''"
    by code_simp
  show ?thesis
    unfolding queryRAG_accepted [OF assms] using msg
    by (auto simp: respondWithContext_def ragFallback_def generateResponse_failed)
qed

lemma abort_reaches:
  "reachesRanking abortEnv sampleState ''tell me about your cv'' 5
     [noteCandidate (1 / 5), resumeCandidate (3 / 2)]"
  by code_simp

lemma abort_first_request:
  "genProvider abortEnv 0
     (genRequest (limitContext (join chunkSeparator
        (map ctext [noteCandidate (1 / 5), resumeCandidate (3 / 2)]))) ''tell me about your cv'')
   = FetchRejected ''The operation was aborted.''"
  by (simp add: abortEnv_def sampleEnv_def)

lemma abort_retry_would_answer:
  "generateResponse abortEnv 1 (ctext (noteCandidate (1 / 5))) ''tell me about your cv''
     = ''Alice writes Go.''"
  by code_simp

lemma abort_answer:
  "queryRAG abortEnv sampleState ''tell me about your cv'' 5 = Inr apology"
  by code_simp

lemma skills_failed_generation:
  "isSkillsQuestion ''what are your skills?''
   \<and> queryRAG failingEnv sampleState ''what are your skills?'' 5
     = Inr (''Here are the skills and technologies mentioned in the resume:\<newline>\<newline>'' @ apology)"
  by code_simp

text \<open>
  \<^bold>\<open>Claim C5.\<close> \<^verbatim>\<open>generateResponse\<close> arms its own abort timer of 30 seconds before
  \<^verbatim>\<open>queryRAG\<close> arms the timer of the race, also of 30 seconds, and its \<^verbatim>\<open>catch\<close> turns
  the abort into the apology, returned as an ordinary result. A generation call that
  exceeds the deadline because the provider stays silent therefore ends with the abort:
  the race resolves with the apology, and the retry with the best chunk, which the
  \<^verbatim>\<open>catch\<close> of \<^verbatim>\<open>queryRAG\<close> attempts for an error that says "timed out", is not made.
  Here two candidates reach the generation, the first request is aborted, the second
  request would have been answered, and the answer is the apology. (The retry is made
  only when the timer of the race wins, \<open>race_timer_retry\<close>; on the skills path a failed
  generation is returned behind the header of the skills answer,
  \<open>skills_failed_generation\<close>.)
\<close>

theorem generation_abort_no_retry:
  "reachesRanking abortEnv sampleState ''tell me about your cv'' 5
     [noteCandidate (1 / 5), resumeCandidate (3 / 2)]
   \<and> score (noteCandidate (1 / 5)) \<le> relevanceThreshold ''tell me about your cv''
   \<and> genProvider abortEnv 0
       (genRequest (limitContext (join chunkSeparator
          (map ctext [noteCandidate (1 / 5), resumeCandidate (3 / 2)]))) ''tell me about your cv'')
     = FetchRejected ''The operation was aborted.''
   \<and> generateResponse abortEnv 1 (ctext (noteCandidate (1 / 5))) ''tell me about your cv''
     = ''Alice writes Go.''
   \<and> queryRAG abortEnv sampleState ''tell me about your cv'' 5 = Inr apology
   \<and> queryRAG abortEnv sampleState ''tell me about your cv'' 5 \<noteq> Inr ''Alice writes Go.''"
proof -
  have "apology \<noteq> ''Alice writes Go.''"
    by (simp add: apology_def)
  then show ?thesis
    using abort_reaches note_accepted abort_first_request abort_retry_would_answer abort_answer
    by simp
qed

subsection \<open>The context assembler\<close>

lemma limitContext_marked:
  "includes_str c ''[RESUME]'' \<Longrightarrow> length c > 800 \<Longrightarrow>
   limitContext c = take 400 c @ ''... [middle truncated] ...'' @ drop (length c - 400) c"
  by (simp add: limitContext_def substring_def)

lemma limitContext_unmarked:
  "\<not> includes_str c ''[RESUME]'' \<Longrightarrow> length c > 800 \<Longrightarrow>
   limitContext c = take 800 c @ ''... [truncated]''"
  by (simp add: limitContext_def substring_def)

lemma includes_str_skip_run:
  "p \<noteq> [] \<Longrightarrow> hd p \<noteq> c \<Longrightarrow> includes_str (replicate n c @ s) p = includes_str s p"
proof (induction n)
  case 0
  then show ?case by simp
next
  case (Suc n)
  have "\<not> startsWith (c # replicate n c @ s) p"
    using Suc.prems by (cases p) (auto simp: startsWith_def)
  then show ?case using Suc by simp
qed

lemma longResume_unmarked: "\<not> includes_str longResume ''[RESUME]''"
  by (simp add: longResume_def startsWith_def includes_str_skip_run)

text \<open>Ingestion of a file \<^verbatim>\<open>resume.txt\<close> of 900 letters: its first chunk is \<open>longResume\<close>.\<close>

lemma longResume_ingested:
  "hd (fileChunks (sampleEnv [] False) (''resume.txt'', Content (replicate 900 (CHR ''a''))))
     = longResume"
  by code_simp

text \<open>
  \<^bold>\<open>Claim C9.\<close> The assembler keeps a prefix and a suffix around the marker
  "... [middle truncated] ..." exactly when the joined text is longer than 800 characters
  and contains the string "[RESUME]" (\<open>limitContext_marked\<close>). Ingestion, however, marks
  a resume with "[RESUME_START]" and "[RESUME_END]", neither of which contains "[RESUME]".
  The first chunk of a resume of 900 letters (\<open>longResume_ingested\<close>) is 928 characters
  long, is not recognised, and is cut to its first 800 characters followed by
  "... [truncated]": a single head truncation, which loses the end of the document.
\<close>

theorem limitContext_ingested_resume:
  "length longResume = 928
   \<and> \<not> includes_str longResume ''[RESUME]''
   \<and> limitContext longResume
       = ''[RESUME_START]\<newline>'' @ replicate 785 (CHR ''a'') @ ''... [truncated]''"
proof -
  have len: "length longResume = 928"
    by (simp add: longResume_def)
  have "take 800 longResume = ''[RESUME_START]\<newline>'' @ replicate 785 (CHR ''a'')"
    by (simp add: longResume_def)
  then show ?thesis
    using len longResume_unmarked limitContext_unmarked [of longResume] by simp
qed

subsection \<open>The chunker\<close>













subsection \<open>The construction of the index\<close>

lemma initRAG_no_txt_files:
  "filter (\<lambda>f. isTxt (fst f)) dir = [] \<Longrightarrow> initRAG e dir st = (None, st)"
  by (simp add: initRAG_def)

text \<open>The claim as stated fails for the empty directory: \<^verbatim>\<open>initRAG\<close> warns and returns, no
  valid pair having been produced and no error thrown.\<close>

theorem initRAG_empty_directory:
  "validPairs (embeddings initialState) (docs initialState) = []
   \<and> initRAG (sampleEnv [] False) [] initialState = (None, initialState)"
  by (simp add: initRAG_def initialState_def validPairs_def)

text \<open>
  \<^bold>\<open>Claim C4, amended.\<close> If ingestion produces no valid (chunk, embedding) pair, then:
  when the data directory holds at least one file whose name ends in ".txt",
  \<^verbatim>\<open>initRAG\<close> throws the error "No valid embeddings were generated" to its caller and
  leaves \<^verbatim>\<open>index\<close> as it was; when the directory holds no such file (an empty directory,
  for one), \<^verbatim>\<open>initRAG\<close> returns normally and leaves the whole state as it was, so that the
  engine stays uninitialised.
\<close>

theorem initRAG_no_valid_embeddings:
  assumes "validPairs
             (embedBatches e (loadFiles e (filter (\<lambda>f. isTxt (fst f)) dir) (docs st)) 0 [])
             (loadFiles e (filter (\<lambda>f. isTxt (fst f)) dir) (docs st)) = []"
  shows "(filter (\<lambda>f. isTxt (fst f)) dir \<noteq> [] \<longrightarrow>
            fst (initRAG e dir st) = Some (Error ''No valid embeddings were generated'')
            \<and> index (snd (initRAG e dir st)) = index st)
    \<and> (filter (\<lambda>f. isTxt (fst f)) dir = [] \<longrightarrow> initRAG e dir st = (None, st))"
  using assms by (simp add: initRAG_def Let_def)

theorem initRAG_no_valid_embeddings_witness:
  "fst (initRAG (sampleEnv [] False) [(''blank.txt'', Content ''   '')] initialState)
     = Some (Error ''No valid embeddings were generated'')
   \<and> index (snd (initRAG (sampleEnv [] False) [(''blank.txt'', Content ''   '')] initialState)) = None
   \<and> initRAG (sampleEnv [] False) [(''notes.md'', Content ''text'')] initialState
       = (None, initialState)"
proof -
  have a: "filter (\<lambda>f. isTxt (fst f)) [(''blank.txt'', Content ''   '')] \<noteq> []"
    by code_simp
  have b: "validPairs
      (embedBatches (sampleEnv [] False)
         (loadFiles (sampleEnv [] False)
            (filter (\<lambda>f. isTxt (fst f)) [(''blank.txt'', Content ''   '')]) (docs initialState)) 0 [])
      (loadFiles (sampleEnv [] False)
         (filter (\<lambda>f. isTxt (fst f)) [(''blank.txt'', Content ''   '')]) (docs initialState)) = []"
    by code_simp
  have c: "filter (\<lambda>f. isTxt (fst f)) [(''notes.md'', Content ''text'')] = []"
    by code_simp
  have d: "validPairs
      (embedBatches (sampleEnv [] False)
         (loadFiles (sampleEnv [] False)
            (filter (\<lambda>f. isTxt (fst f)) [(''notes.md'', Content ''text'')]) (docs initialState)) 0 [])
      (loadFiles (sampleEnv [] False)
         (filter (\<lambda>f. isTxt (fst f)) [(''notes.md'', Content ''text'')]) (docs initialState)) = []"
    by code_simp
  have i: "index initialState = None"
    by (simp add: initialState_def)
  from initRAG_no_valid_embeddings [OF b] a i
  have first: "fst (initRAG (sampleEnv [] False) [(''blank.txt'', Content ''   '')] initialState)
       = Some (Error ''No valid embeddings were generated'')
     \<and> index (snd (initRAG (sampleEnv [] False) [(''blank.txt'', Content ''   '')] initialState)) = None"
    by simp
  from initRAG_no_valid_embeddings [OF d] c
  have second: "initRAG (sampleEnv [] False) [(''notes.md'', Content ''text'')] initialState
       = (None, initialState)"
    by blast
  show ?thesis using first second by blast
qed

text \<open>When the valid embeddings all have the length of the first, the slots of the index
  are the valid embeddings, slot \<open>i\<close> that of \<^verbatim>\<open>validDocs[i]\<close>.\<close>

lemma concat_uniform_slots:
  "\<forall>v \<in> set vs. length v = d \<Longrightarrow> 0 < d \<Longrightarrow>
   length (concat vs) = length vs * d \<and> (\<forall>i < length vs. take d (drop (i * d) (concat vs)) = vs ! i)"
proof (induction vs)
  case Nil
  then show ?case by simp
next
  case (Cons v vs)
  have IH: "length (concat vs) = length vs * d"
    "\<forall>i < length vs. take d (drop (i * d) (concat vs)) = vs ! i"
    using Cons by auto
  have "take d (drop (i * d) (concat (v # vs))) = (v # vs) ! i" if "i < length (v # vs)" for i
  proof (cases i)
    case 0
    then show ?thesis using Cons.prems by simp
  next
    case (Suc j)
    then have "j < length vs" using that by simp
    moreover have "drop (Suc j * d) (v @ concat vs) = drop (j * d) (concat vs)"
      using Cons.prems by simp
    ultimately show ?thesis using IH Suc by simp
  qed
  then show ?case using IH Cons.prems by simp
qed

lemma validPairs_nonempty_vectors: "p \<in> set (validPairs embs ds) \<Longrightarrow> 0 < length (fst p)"
  by (auto simp: validPairs_def List.map_filter_def split: option.splits if_splits)

lemma initRAG_uniform_dimension:
  assumes ok: "initRAG e dir st = (None, st')"
    and files: "filter (\<lambda>f. isTxt (fst f)) dir \<noteq> []"
    and pairs: "pairs = validPairs (embeddings st') (docs st')"
    and uniform: "\<forall>p \<in> set pairs. length (fst p) = length (fst (hd pairs))"
  shows "\<exists>ix. index st' = Some ix \<and> validDocs st' = map snd pairs
    \<and> dim ix = length (fst (hd pairs)) \<and> ntotal ix = length (validDocs st')
    \<and> (\<forall>i < length pairs. slot ix i = fst (pairs ! i))"
proof -
  let ?ds = "loadFiles e (filter (\<lambda>f. isTxt (fst f)) dir) (docs st)"
  let ?embs = "embedBatches e ?ds 0 []"
  let ?ps = "validPairs ?embs ?ds"
  have nonempty: "?ps \<noteq> []"
    using ok files by (auto simp: initRAG_def Let_def split: list.splits if_splits)
  then obtain first rest where ps: "?ps = first # rest"
    by (cases ?ps) auto
  let ?d = "length (fst first)"
  let ?ix = "\<lparr> dim = ?d, flat = concat (map fst ?ps) \<rparr>"
  have st': "st' = st \<lparr> docs := ?ds, embeddings := ?embs, validDocs := map snd ?ps,
                 index := Some ?ix \<rparr>"
    using ok files ps by (auto simp: initRAG_def Let_def split: if_splits)
  have same: "pairs = ?ps"
    using pairs st' by simp
  have pos: "0 < ?d"
    using validPairs_nonempty_vectors [of first ?embs ?ds] ps by simp
  have "\<forall>v \<in> set (map fst ?ps). length v = ?d"
    using uniform same ps by simp
  then have slots: "length (concat (map fst ?ps)) = length (map fst ?ps) * ?d
     \<and> (\<forall>i < length (map fst ?ps). take ?d (drop (i * ?d) (concat (map fst ?ps))) = map fst ?ps ! i)"
    using pos by (rule concat_uniform_slots)
  have "index st' = Some ?ix" "validDocs st' = map snd pairs" "dim ?ix = length (fst (hd pairs))"
    using st' same ps by simp_all
  moreover have "ntotal ?ix = length (validDocs st')"
    using slots pos st' by (simp add: ntotal_def)
  moreover have "\<forall>i < length pairs. slot ?ix i = fst (pairs ! i)"
    using slots same by (simp add: slot_def)
  ultimately show ?thesis by blast
qed

lemma twoFiles_docs:
  "loadFiles mixedEnv (filter (\<lambda>f. isTxt (fst f)) twoFiles) (docs initialState)
     = [''first'', ''second'']"
  by code_simp

lemma twoFiles_embeddings:
  "embedBatches mixedEnv [''first'', ''second''] 0 []
     = [Some (replicate 384 (1 / 2)), Some (fallbackEmbeddingSync sampleDigest ''second'' 768)]"
proof -
  have t: "trim ''first'' \<noteq> []" "trim ''second'' \<noteq> []"
    by code_simp+
  show ?thesis
    using t
    by (simp add: embedBatches.simps enumerate_eq_zip upt_rec embedDoc_def getEmbedding_def
        mixedEnv_def sampleEnv_def)
qed

text \<open>
  \<^bold>\<open>Claim C8.\<close> The embedder answers with the provider's vector when the request succeeds and
  with the 768 components of the fallback when it fails; \<^verbatim>\<open>initRAG\<close> takes the dimension
  from the first valid embedding and tests only that the total number of components is
  a multiple of it. Two chunks, the first embedded by the provider with 384 components,
  the second by the fallback: \<^verbatim>\<open>initRAG\<close> completes, the embedding of the second chunk
  has 768 components and not the 384 fixed by the first, and the index of dimension 384
  holds three slots for the two entries of \<^verbatim>\<open>validDocs\<close>, the second embedding filling
  slots 1 and 2. (When all valid embeddings have the dimension of the first, the
  invariant holds: \<open>initRAG_uniform_dimension\<close>.)
\<close>

theorem initRAG_mixed_dimensions:
  "fst (initRAG mixedEnv twoFiles initialState) = None
   \<and> validDocs (snd (initRAG mixedEnv twoFiles initialState)) = [''first'', ''second'']
   \<and> map (map_option length) (embeddings (snd (initRAG mixedEnv twoFiles initialState)))
       = [Some 384, Some 768]
   \<and> map_option dim (index (snd (initRAG mixedEnv twoFiles initialState))) = Some 384
   \<and> map_option ntotal (index (snd (initRAG mixedEnv twoFiles initialState))) = Some 3"
proof -
  have files: "filter (\<lambda>f. isTxt (fst f)) twoFiles \<noteq> []"
    by code_simp
  have pairs: "validPairs
      [Some (replicate 384 (1 / 2)), Some (fallbackEmbeddingSync sampleDigest ''second'' 768)]
      [''first'', ''second'']
    = [(replicate 384 (1 / 2), ''first''),
       (fallbackEmbeddingSync sampleDigest ''second'' 768, ''second'')]"
    by (simp add: validPairs_def List.map_filter_simps)
  show ?thesis
    using files
    by (simp add: initRAG_def Let_def twoFiles_docs twoFiles_embeddings pairs ntotal_def)
qed

subsection \<open>The search of the index\<close>

lemma insort_closer:
  "sorted_wrt closer ys \<Longrightarrow> \<forall>y \<in> set ys. fst x < fst y \<Longrightarrow>
   sorted_wrt closer (insort_key snd x ys)"
proof (induction ys)
  case Nil
  then show ?case by simp
next
  case (Cons y ys)
  show ?case
  proof (cases "snd x \<le> snd y")
    case True
    have "closer x z" if "z \<in> set (y # ys)" for z
    proof -
      have "z = y \<or> closer y z" using that Cons.prems(1) by auto
      then have "snd x \<le> snd z" using True by (auto simp: closer_def)
      then show ?thesis using that Cons.prems(2) by (auto simp: closer_def)
    qed
    then show ?thesis using True Cons.prems(1) by auto
  next
    case False
    then have "closer y x" by (simp add: closer_def)
    moreover have "sorted_wrt closer (insort_key snd x ys)"
      using Cons by simp
    ultimately show ?thesis using False Cons.prems(1) by (auto simp: set_insort_key)
  qed
qed

lemma sort_key_closer:
  "sorted_wrt (<) (map fst xs) \<Longrightarrow> sorted_wrt closer (sort_key snd xs)"
proof (induction xs)
  case Nil
  then show ?case by simp
next
  case (Cons x xs)
  then show ?case by (auto intro!: insort_closer)
qed

lemma labelled_sorted:
  "sorted_wrt (<) (map fst (map (\<lambda>i. (i, f i)) [0..<n]))"
  by (simp add: comp_def sorted_wrt_map)

lemma search_sample: "search sampleIndex [0] 5 = [(1, 0), (0, 1), (2, 1)]"
  by (simp add: search_def sampleIndex_def ntotal_def slot_def l2sq_def upt_rec)

text \<open>
  \<^bold>\<open>Claim C3.\<close> For the search as the specification describes it, every index of \<open>N\<close>
  stored vectors, every query vector and every \<open>k\<close>: the search returns exactly
  \<open>min k N\<close> hits; their distances are in non-decreasing order; hits of equal distance
  are in the order of insertion (ascending labels); every hit carries the label of a
  stored vector and the squared L2 distance of that vector from the query; no stored
  vector left out is closer than a vector returned. In particular a search with
  \<open>k = 5\<close>, as the skills path issues it, against an index of 3 chunks returns exactly 3
  hits.
\<close>

theorem search_contract:
  "length (search ix q k) = min k (ntotal ix)
   \<and> sorted (map snd (search ix q k))
   \<and> sorted_wrt (\<lambda>a b. snd a = snd b \<longrightarrow> fst a < fst b) (search ix q k)
   \<and> (\<forall>hit \<in> set (search ix q k). fst hit < ntotal ix \<and> snd hit = l2sq q (slot ix (fst hit)))
   \<and> (\<forall>l < ntotal ix. l \<notin> fst ` set (search ix q k) \<longrightarrow>
          (\<forall>hit \<in> set (search ix q k). snd hit \<le> l2sq q (slot ix l)))
   \<and> (ntotal ix = 3 \<longrightarrow> length (search ix q 5) = 3)"
proof -
  define all where "all = map (\<lambda>i. (i, l2sq q (slot ix i))) [0..<ntotal ix]"
  define ranked where "ranked = sort_key snd all"
  have s: "search ix q k = take k ranked" for k
    by (simp add: search_def ranked_def all_def)
  have len: "length (search ix q k) = min k (ntotal ix)" for k
    by (simp add: s ranked_def all_def min.commute)
  have srt: "sorted (map snd ranked)"
    by (simp add: ranked_def)
  have "sorted (take k (map snd ranked))"
    using srt by (rule sorted_wrt_take)
  then have asc: "sorted (map snd (search ix q k))"
    by (simp add: s take_map)
  have "sorted_wrt closer ranked"
    unfolding ranked_def all_def by (rule sort_key_closer) (rule labelled_sorted)
  then have "sorted_wrt closer (take k ranked)"
    by (rule sorted_wrt_take)
  then have stable: "sorted_wrt (\<lambda>a b. snd a = snd b \<longrightarrow> fst a < fst b) (search ix q k)"
    unfolding s by (rule sorted_wrt_mono_rel [rotated]) (auto simp: closer_def)
  have mem: "set ranked = set all"
    by (simp add: ranked_def)
  have hits: "\<forall>hit \<in> set (search ix q k). fst hit < ntotal ix \<and> snd hit = l2sq q (slot ix (fst hit))"
  proof
    fix hit assume "hit \<in> set (search ix q k)"
    then have "hit \<in> set all"
      using mem s by (metis in_set_takeD)
    then show "fst hit < ntotal ix \<and> snd hit = l2sq q (slot ix (fst hit))"
      by (auto simp: all_def)
  qed
  have closest: "\<forall>l < ntotal ix. l \<notin> fst ` set (search ix q k) \<longrightarrow>
          (\<forall>hit \<in> set (search ix q k). snd hit \<le> l2sq q (slot ix l))"
  proof (intro allI impI ballI)
    fix l hit
    assume l: "l < ntotal ix" and out: "l \<notin> fst ` set (search ix q k)"
      and hit: "hit \<in> set (search ix q k)"
    have "(l, l2sq q (slot ix l)) \<in> set all"
      using l by (auto simp: all_def)
    moreover have "set ranked = set (take k ranked) \<union> set (drop k ranked)"
      by (metis append_take_drop_id set_append)
    moreover have "(l, l2sq q (slot ix l)) \<notin> set (take k ranked)"
      using out s by force
    ultimately have later: "(l, l2sq q (slot ix l)) \<in> set (drop k ranked)"
      using mem by auto
    have "sorted (map snd (take k ranked) @ map snd (drop k ranked))"
      using srt by (simp flip: map_append)
    then have "\<forall>x \<in> set (map snd (take k ranked)). \<forall>y \<in> set (map snd (drop k ranked)). x \<le> y"
      by (simp add: sorted_append)
    then show "snd hit \<le> l2sq q (slot ix l)"
      using hit later s by force
  qed
  show ?thesis
    using len asc stable hits closest by simp
qed

theorem search_contract_witness:
  "ntotal sampleIndex = 3
   \<and> search sampleIndex [0] 5 = [(1, 0), (0, 1), (2, 1)]
   \<and> length (search sampleIndex [0] 5) = 3"
proof -
  have n: "ntotal sampleIndex = 3"
    by (simp add: ntotal_def sampleIndex_def)
  from search_contract [of sampleIndex "[0]" 5] n
  have "length (search sampleIndex [0] 5) = 3"
    by blast
  then show ?thesis
    using n search_sample by simp
qed

end
